theory Spec2Isabelle
  imports Main "HOL-Library.Word"
begin

section \<open>Word2Vec data preparation: the sliding-window sample generator\<close>

text \<open>
  The notebook \<^verbatim>\<open>Representations (Word2Vec - Data Preparation).ipynb\<close> turns the list
  \<^verbatim>\<open>tokens\<close> (lemmatised strings) into two NumPy tables of vocabulary indices:
  \<^verbatim>\<open>cbow\<close> (context indices followed by the center index) and \<^verbatim>\<open>skipgram\<close>
  ((center, context) pairs).  The cells are modelled as functions; every exception the
  Python can raise is a value of \<open>error\<close>.
\<close>

subsection \<open>Python lists\<close>

datatype error = ValueError | IndexError | RuntimeError | NameError

text \<open>\<^verbatim>\<open>xs[i]\<close>: a negative index counts from the end, anything outside raises.\<close>

definition py_getitem :: "'a list \<Rightarrow> int \<Rightarrow> error + 'a" where
  "py_getitem xs i =
     (if 0 \<le> i \<and> i < int (length xs) then Inr (xs ! nat i)
      else if - int (length xs) \<le> i \<and> i < 0 then Inr (xs ! nat (int (length xs) + i))
      else Inl IndexError)"

text \<open>\<^verbatim>\<open>xs[a:b]\<close>: both bounds are clamped to the list, a slice never raises.\<close>

definition py_slice :: "'a list \<Rightarrow> int \<Rightarrow> int \<Rightarrow> 'a list" where
  "py_slice xs a b =
     (let n = int (length xs);
          lo = (if a < 0 then max (n + a) 0 else min a n);
          hi = (if b < 0 then max (n + b) 0 else min b n)
      in take (nat (hi - lo)) (drop (nat lo) xs))"

text \<open>\<^verbatim>\<open>range(a, b)\<close> has \<open>max 0 (b - a)\<close> elements \<open>a, a + 1, \<dots>\<close>.\<close>

definition py_range :: "int \<Rightarrow> int \<Rightarrow> int list" where
  "py_range a b = map (\<lambda>k. a + int k) [0..<nat (b - a)]"

definition py_enumerate :: "'a list \<Rightarrow> (int \<times> 'a) list" where
  "py_enumerate xs = zip (map int [0..<length xs]) xs"

subsection \<open>NumPy: two-dimensional \<^verbatim>\<open>int32\<close> arrays\<close>

type_synonym int32 = "32 word"

record ndarray =
  shape0 :: nat
  shape1 :: nat
  data :: "int32 list list"

text \<open>\<^verbatim>\<open>np.zeros((r, c), dtype=np.int32)\<close> raises \<^verbatim>\<open>ValueError\<close> on a negative dimension.\<close>

definition np_zeros :: "int \<Rightarrow> int \<Rightarrow> error + ndarray" where
  "np_zeros r c =
     (if r < 0 \<or> c < 0 then Inl ValueError
      else Inr \<lparr>shape0 = nat r, shape1 = nat c,
                data = replicate (nat r) (replicate (nat c) 0)\<rparr>)"

text \<open>Storing a Python integer into an \<^verbatim>\<open>int32\<close> array keeps its low 32 bits.\<close>

definition astype_int32 :: "int \<Rightarrow> int32" where
  "astype_int32 x = word_of_int x"

text \<open>
  \<^verbatim>\<open>a[k] = np.array(vals)\<close>: the row index is checked first (\<^verbatim>\<open>IndexError\<close>), then
  the values are broadcast to the row: same length, or a single value repeated;
  any other length raises \<^verbatim>\<open>ValueError\<close>.
\<close>

definition setitem :: "ndarray \<Rightarrow> int \<Rightarrow> int list \<Rightarrow> error + ndarray" where
  "setitem a k vals =
     (let n = int (shape0 a); j = (if k < 0 then n + k else k)
      in if \<not> (0 \<le> j \<and> j < n) then Inl IndexError
         else if length vals = shape1 a
           then Inr (a\<lparr>data := (data a)[nat j := map astype_int32 vals]\<rparr>)
         else if length vals = 1
           then Inr (a\<lparr>data := (data a)[nat j := replicate (shape1 a) (astype_int32 (hd vals))]\<rparr>)
         else Inl ValueError)"

subsection \<open>torchtext: the vocabulary\<close>

text \<open>
  A \<^verbatim>\<open>Vocab\<close> is the list of its tokens (a token's index is its position) and an
  optional default index for tokens it does not hold.
\<close>

record Vocab =
  itos :: "string list"
  default_index :: "int option"

fun stoi :: "string list \<Rightarrow> string \<Rightarrow> nat option" where
  "stoi [] t = None"
| "stoi (x # xs) t = (if x = t then Some 0 else map_option Suc (stoi xs t))"

text \<open>
  \<^verbatim>\<open>vocab(ordered_dict, specials=...)\<close> with the defaults \<^verbatim>\<open>min_freq=1\<close> and
  \<^verbatim>\<open>special_first=True\<close>: the specials are dropped from the dictionary, the tokens
  with frequency at least \<^verbatim>\<open>min_freq\<close> are kept in order, the specials go in front.
\<close>

definition vocab :: "(string \<times> nat) list \<Rightarrow> string list \<Rightarrow> Vocab" where
  "vocab ordered_dict specials =
     (let od = filter (\<lambda>(t, freq). t \<notin> set specials) ordered_dict;
          toks = map fst (filter (\<lambda>(t, freq). 1 \<le> freq) od)
      in \<lparr>itos = specials @ toks, default_index = None\<rparr>)"

text \<open>\<^verbatim>\<open>v[token]\<close>: the index, else the default index, else \<^verbatim>\<open>RuntimeError\<close>.\<close>

definition getitem :: "Vocab \<Rightarrow> string \<Rightarrow> error + int" where
  "getitem v t =
     (case stoi (itos v) t of
        Some i \<Rightarrow> Inr (int i)
      | None \<Rightarrow> (case default_index v of Some d \<Rightarrow> Inr d | None \<Rightarrow> Inl RuntimeError))"

fun lookup_indices :: "Vocab \<Rightarrow> string list \<Rightarrow> error + int list" where
  "lookup_indices v [] = Inr []"
| "lookup_indices v (t # ts) =
     (case getitem v t of
        Inl e \<Rightarrow> Inl e
      | Inr i \<Rightarrow> (case lookup_indices v ts of Inl e \<Rightarrow> Inl e | Inr is \<Rightarrow> Inr (i # is)))"

definition set_default_index :: "Vocab \<Rightarrow> int \<Rightarrow> Vocab" where
  "set_default_index v i = v\<lparr>default_index := Some i\<rparr>"

definition len :: "Vocab \<Rightarrow> nat" where
  "len v = length (itos v)"

subsection \<open>The notebook's vocabulary cells\<close>

definition TOP_TOKENS :: nat where
  "TOP_TOKENS = 20000"

definition PAD_TOKEN :: string where "PAD_TOKEN = ''<PAD>''"
definition UNK_TOKEN :: string where "UNK_TOKEN = ''<UNK>''"
definition SOS_TOKEN :: string where "SOS_TOKEN = ''<SOS>''"
definition EOS_TOKEN :: string where "EOS_TOKEN = ''<EOS>''"

definition SPECIALS :: "string list" where
  "SPECIALS = [PAD_TOKEN, UNK_TOKEN, SOS_TOKEN, EOS_TOKEN]"

text \<open>
  \<^verbatim>\<open>sorted(token_counter.items(), key=lambda x: x[1], reverse=True)[:TOP_TOKENS]\<close>:
  a stable sort by descending frequency.  The counter is the list of its items
  (the keys of a dictionary are distinct).
\<close>

definition token_ordered_dict :: "(string \<times> nat) list \<Rightarrow> (string \<times> nat) list" where
  "token_ordered_dict token_counter =
     take TOP_TOKENS (sort_key (\<lambda>x. - int (snd x)) token_counter)"

text \<open>
  \<^verbatim>\<open>vocabulary = vocab(token_ordered_dict, specials=SPECIALS)\<close> followed by
  \<^verbatim>\<open>vocabulary.set_default_index(vocabulary[UNK_TOKEN])\<close>.
\<close>

definition vocabulary :: "(string \<times> nat) list \<Rightarrow> error + Vocab" where
  "vocabulary token_counter =
     (let v = vocab (token_ordered_dict token_counter) SPECIALS
      in case getitem v UNK_TOKEN of
           Inl e \<Rightarrow> Inl e
         | Inr i \<Rightarrow> Inr (set_default_index v i))"

subsection \<open>The generator cell\<close>

text \<open>
  The inner loop \<^verbatim>\<open>for idx, c in enumerate(context)\<close> writes one Skip-gram row
  per context word, at row \<^verbatim>\<open>center_idx*window_size*2 + idx\<close>.
\<close>

fun skipgram_loop ::
  "Vocab \<Rightarrow> string \<Rightarrow> int \<Rightarrow> int \<Rightarrow> (int \<times> string) list \<Rightarrow> ndarray \<Rightarrow> error + ndarray" where
  "skipgram_loop v center center_idx window_size [] skipgram = Inr skipgram"
| "skipgram_loop v center center_idx window_size ((idx, c) # rest) skipgram =
     (case lookup_indices v [center] of
        Inl e \<Rightarrow> Inl e
      | Inr a \<Rightarrow>
     (case lookup_indices v [c] of
        Inl e \<Rightarrow> Inl e
      | Inr b \<Rightarrow>
     (case setitem skipgram (center_idx * window_size * 2 + idx) (a @ b) of
        Inl e \<Rightarrow> Inl e
      | Inr skipgram' \<Rightarrow> skipgram_loop v center center_idx window_size rest skipgram')))"

text \<open>
  The outer loop \<^verbatim>\<open>for center_idx, pos in enumerate(range(window_size,
  len(tokens)-window_size))\<close>, threading both arrays.
\<close>

fun window_loop ::
  "Vocab \<Rightarrow> string list \<Rightarrow> int \<Rightarrow> (int \<times> int) list \<Rightarrow> ndarray \<times> ndarray
     \<Rightarrow> error + ndarray \<times> ndarray" where
  "window_loop v tokens window_size [] (cbow, skipgram) = Inr (cbow, skipgram)"
| "window_loop v tokens window_size ((center_idx, pos) # rest) (cbow, skipgram) =
     (case py_getitem tokens pos of
        Inl e \<Rightarrow> Inl e
      | Inr center \<Rightarrow>
     (let context = py_slice tokens (pos - window_size) pos
                      @ py_slice tokens (pos + 1) (pos + window_size + 1)
      in case lookup_indices v context of
           Inl e \<Rightarrow> Inl e
         | Inr a \<Rightarrow>
        (case lookup_indices v [center] of
           Inl e \<Rightarrow> Inl e
         | Inr b \<Rightarrow>
        (case setitem cbow (pos - window_size) (a @ b) of
           Inl e \<Rightarrow> Inl e
         | Inr cbow' \<Rightarrow>
        (case skipgram_loop v center center_idx window_size (py_enumerate context) skipgram of
           Inl e \<Rightarrow> Inl e
         | Inr skipgram' \<Rightarrow> window_loop v tokens window_size rest (cbow', skipgram'))))))"

text \<open>
  The whole cell, with the window radius as a parameter (the notebook sets
  \<^verbatim>\<open>window_size = 5\<close>): both arrays are allocated, then filled by the loop.
\<close>

definition generate :: "Vocab \<Rightarrow> string list \<Rightarrow> int \<Rightarrow> error + ndarray \<times> ndarray" where
  "generate v tokens window_size =
     (case np_zeros (int (length tokens) - 2 * window_size) (2 * window_size + 1) of
        Inl e \<Rightarrow> Inl e
      | Inr cbow \<Rightarrow>
     (case np_zeros ((int (length tokens) - 2 * window_size) * (2 * window_size)) 2 of
        Inl e \<Rightarrow> Inl e
      | Inr skipgram \<Rightarrow>
        window_loop v tokens window_size
          (py_enumerate (py_range window_size (int (length tokens) - window_size)))
          (cbow, skipgram)))"

subsection \<open>The generator cell as a step of the notebook\<close>

text \<open>
  The notebook keeps its variables across cells, and a cell that raises leaves behind
  whatever it has assigned so far.  The state holds the two variables the cell reads
  (\<^verbatim>\<open>tokens\<close>, \<^verbatim>\<open>vocabulary\<close>), every variable it assigns (\<open>None\<close>: not yet bound),
  and what \<^verbatim>\<open>tqdm\<close> has written: the bar is drawn when it is created and when it is
  closed; the redraws in between depend on the clock and are not recorded.
\<close>

datatype tqdm_event = Opened nat | Closed nat nat

record tqdm =
  pb_n :: nat
  pb_total :: nat

record notebook =
  nb_tokens :: "string list"
  nb_vocabulary :: Vocab
  nb_window_size :: "int option"
  nb_cbow :: "ndarray option"
  nb_skipgram :: "ndarray option"
  nb_pbar :: "tqdm option"
  nb_center_idx :: "int option"
  nb_pos :: "int option"
  nb_center :: "string option"
  nb_context :: "string list option"
  nb_cbow_sample :: "int list option"
  nb_idx :: "int option"
  nb_c :: "string option"
  nb_skipgram_sample :: "int list option"
  nb_stderr :: "tqdm_event list"

text \<open>
  The inner loop on the notebook state: \<^verbatim>\<open>idx\<close>, \<^verbatim>\<open>c\<close> and \<^verbatim>\<open>skipgram_sample\<close> are
  assigned, the row is written into the array that \<^verbatim>\<open>skipgram\<close> names.  The result is
  the exception raised, if any, and the state at that point.
\<close>

fun cell_skipgram_loop ::
  "Vocab \<Rightarrow> string \<Rightarrow> int \<Rightarrow> int \<Rightarrow> (int \<times> string) list \<Rightarrow> notebook
     \<Rightarrow> error option \<times> notebook" where
  "cell_skipgram_loop v center center_idx window_size [] nb = (None, nb)"
| "cell_skipgram_loop v center center_idx window_size ((idx, c) # rest) nb =
     (let nb1 = nb\<lparr>nb_idx := Some idx, nb_c := Some c\<rparr>
      in case lookup_indices v [center] of
           Inl e \<Rightarrow> (Some e, nb1)
         | Inr a \<Rightarrow>
        (case lookup_indices v [c] of
           Inl e \<Rightarrow> (Some e, nb1)
         | Inr b \<Rightarrow>
        (let nb2 = nb1\<lparr>nb_skipgram_sample := Some (a @ b)\<rparr>
         in case nb_skipgram nb2 of
              None \<Rightarrow> (Some NameError, nb2)
            | Some skipgram \<Rightarrow>
           (case setitem skipgram (center_idx * window_size * 2 + idx) (a @ b) of
              Inl e \<Rightarrow> (Some e, nb2)
            | Inr skipgram' \<Rightarrow>
                cell_skipgram_loop v center center_idx window_size rest
                  (nb2\<lparr>nb_skipgram := Some skipgram'\<rparr>)))))"

text \<open>
  One pass of the outer loop on the notebook state, for the pair
  \<^verbatim>\<open>(center_idx, pos)\<close>; it ends with \<^verbatim>\<open>pbar.update(1)\<close>.
\<close>

definition cell_window_body ::
  "Vocab \<Rightarrow> string list \<Rightarrow> int \<Rightarrow> int \<Rightarrow> int \<Rightarrow> notebook \<Rightarrow> error option \<times> notebook" where
  "cell_window_body v tokens window_size center_idx pos nb =
     (let nb1 = nb\<lparr>nb_center_idx := Some center_idx, nb_pos := Some pos\<rparr>
      in case py_getitem tokens pos of
           Inl e \<Rightarrow> (Some e, nb1)
         | Inr center \<Rightarrow>
        (let context = py_slice tokens (pos - window_size) pos
                         @ py_slice tokens (pos + 1) (pos + window_size + 1);
             nb2 = nb1\<lparr>nb_center := Some center, nb_context := Some context\<rparr>
         in case lookup_indices v context of
              Inl e \<Rightarrow> (Some e, nb2)
            | Inr a \<Rightarrow>
           (case lookup_indices v [center] of
              Inl e \<Rightarrow> (Some e, nb2)
            | Inr b \<Rightarrow>
           (let nb3 = nb2\<lparr>nb_cbow_sample := Some (a @ b)\<rparr>
            in case nb_cbow nb3 of
                 None \<Rightarrow> (Some NameError, nb3)
               | Some cbow \<Rightarrow>
              (case setitem cbow (pos - window_size) (a @ b) of
                 Inl e \<Rightarrow> (Some e, nb3)
               | Inr cbow' \<Rightarrow>
              (case cell_skipgram_loop v center center_idx window_size (py_enumerate context)
                      (nb3\<lparr>nb_cbow := Some cbow'\<rparr>) of
                 (Some e, nb4) \<Rightarrow> (Some e, nb4)
               | (None, nb4) \<Rightarrow>
                (case nb_pbar nb4 of
                   None \<Rightarrow> (Some NameError, nb4)
                 | Some pbar \<Rightarrow>
                     (None, nb4\<lparr>nb_pbar := Some (pbar\<lparr>pb_n := pb_n pbar + 1\<rparr>)\<rparr>))))))))"

text \<open>The outer loop: it stops at the first pass that raises.\<close>

fun cell_window_loop ::
  "Vocab \<Rightarrow> string list \<Rightarrow> int \<Rightarrow> (int \<times> int) list \<Rightarrow> notebook
     \<Rightarrow> error option \<times> notebook" where
  "cell_window_loop v tokens window_size [] nb = (None, nb)"
| "cell_window_loop v tokens window_size ((center_idx, pos) # rest) nb =
     (case cell_window_body v tokens window_size center_idx pos nb of
        (Some e, nb') \<Rightarrow> (Some e, nb')
      | (None, nb') \<Rightarrow> cell_window_loop v tokens window_size rest nb')"

text \<open>Leaving the \<^verbatim>\<open>with\<close> block closes the bar, also when the block raised.\<close>

definition close_pbar :: "notebook \<Rightarrow> notebook" where
  "close_pbar nb =
     (case nb_pbar nb of
        None \<Rightarrow> nb
      | Some pbar \<Rightarrow> nb\<lparr>nb_stderr := nb_stderr nb @ [Closed (pb_n pbar) (pb_total pbar)]\<rparr>)"

text \<open>
  The whole cell run with radius \<open>w\<close> (the notebook's first line is
  \<^verbatim>\<open>window_size = 5\<close>): each assignment updates the state in the order of the source.
\<close>

definition generate_cell :: "int \<Rightarrow> notebook \<Rightarrow> error option \<times> notebook" where
  "generate_cell w nb =
     (let nb1 = nb\<lparr>nb_window_size := Some w\<rparr>;
          tokens = nb_tokens nb1;
          v = nb_vocabulary nb1
      in case np_zeros (int (length tokens) - 2 * w) (2 * w + 1) of
           Inl e \<Rightarrow> (Some e, nb1)
         | Inr cbow \<Rightarrow>
        (let nb2 = nb1\<lparr>nb_cbow := Some cbow\<rparr>
         in case np_zeros ((int (length tokens) - 2 * w) * (2 * w)) 2 of
              Inl e \<Rightarrow> (Some e, nb2)
            | Inr skipgram \<Rightarrow>
           (let nb3 = nb2\<lparr>nb_skipgram := Some skipgram\<rparr>;
                nb4 = nb3\<lparr>nb_pbar := Some \<lparr>pb_n = 0, pb_total = shape0 cbow\<rparr>,
                          nb_stderr := nb_stderr nb3 @ [Opened (shape0 cbow)]\<rparr>
            in case cell_window_loop v tokens w
                      (py_enumerate (py_range w (int (length tokens) - w))) nb4 of
                 (r, nb5) \<Rightarrow> (r, close_pbar nb5))))"

subsection \<open>What the tables should hold\<close>

text \<open>
  The description of the tables, over the identifiers \<open>ids\<close> of the tokens: the context
  of center position \<open>p\<close> is the identifiers at positions \<open>p - w .. p - 1\<close> followed by
  those at \<open>p + 1 .. p + w\<close>; CBOW row \<open>i\<close> is the context of \<open>p = i + w\<close> followed by
  the center; Skip-gram row \<open>j\<close> of group \<open>i\<close> pairs the center with context entry \<open>j\<close>.
\<close>

definition context_window :: "'a list \<Rightarrow> nat \<Rightarrow> nat \<Rightarrow> 'a list" where
  "context_window xs w p = map ((!) xs) ([p - w..<p] @ [p + 1..<p + w + 1])"

definition cbow_ids :: "int list \<Rightarrow> nat \<Rightarrow> nat \<Rightarrow> int list" where
  "cbow_ids ids w i = context_window ids w (i + w) @ [ids ! (i + w)]"

definition skipgram_ids :: "int list \<Rightarrow> nat \<Rightarrow> nat \<Rightarrow> nat \<Rightarrow> int list" where
  "skipgram_ids ids w i j = [ids ! (i + w), context_window ids w (i + w) ! j]"

definition cbow_table :: "int list \<Rightarrow> nat \<Rightarrow> int32 list list" where
  "cbow_table ids w =
     map (\<lambda>i. map astype_int32 (cbow_ids ids w i)) [0..<length ids - 2 * w]"

definition skipgram_table :: "int list \<Rightarrow> nat \<Rightarrow> int32 list list" where
  "skipgram_table ids w =
     concat (map (\<lambda>i. map (\<lambda>j. map astype_int32 (skipgram_ids ids w i j)) [0..<2 * w])
                 [0..<length ids - 2 * w])"

section \<open>Properties\<close>

subsection \<open>Lists, slices and lookups\<close>

lemma py_enumerate_conv: "py_enumerate xs = map (\<lambda>j. (int j, xs ! j)) [0..<length xs]"
  unfolding py_enumerate_def
  by (rule nth_equalityI) simp_all

lemma enumerate_range:
  "py_enumerate (py_range a b) = map (\<lambda>k. (int k, a + int k)) [0..<nat (b - a)]"
  unfolding py_enumerate_def py_range_def
  by (rule nth_equalityI) simp_all

lemma py_getitem_nat: "i < length xs \<Longrightarrow> py_getitem xs (int i) = Inr (xs ! i)"
  by (simp add: py_getitem_def)

lemma py_slice_nat:
  "a \<le> b \<Longrightarrow> b \<le> length xs \<Longrightarrow> py_slice xs (int a) (int b) = take (b - a) (drop a xs)"
  by (simp add: py_slice_def Let_def min_def nat_diff_distrib')

lemma lookup_indices_all2I:
  "list_all2 (\<lambda>t i. getitem v t = Inr i) ts is \<Longrightarrow> lookup_indices v ts = Inr is"
  by (induction ts "is" rule: list_all2_induct) simp_all

lemma lookup_indices_all2D:
  "lookup_indices v ts = Inr is \<Longrightarrow> list_all2 (\<lambda>t i. getitem v t = Inr i) ts is"
  by (induction ts arbitrary: "is") (auto split: sum.splits)

lemma setitem_row:
  "j < shape0 a \<Longrightarrow> length vals = shape1 a \<Longrightarrow>
   setitem a (int j) vals = Inr (a\<lparr>data := (data a)[j := map astype_int32 vals]\<rparr>)"
  by (simp add: setitem_def Let_def)

subsection \<open>The loops as folds of row updates\<close>

lemma skipgram_loop_fold:
  assumes "getitem v center = Inr cid"
    and "shape1 sg = 2"
    and "\<forall>j\<in>set js. k * W * 2 + j < shape0 sg \<and> getitem v (ctx ! j) = Inr (cids ! j)"
  shows "skipgram_loop v center (int k) (int W) (map (\<lambda>j. (int j, ctx ! j)) js) sg =
     Inr (sg\<lparr>data := fold (\<lambda>j d. d[k * W * 2 + j := [astype_int32 cid, astype_int32 (cids ! j)]]) js (data sg)\<rparr>)"
  using assms
proof (induction js arbitrary: sg)
  case Nil
  show ?case by simp
next
  case (Cons j js)
  let ?sg = "sg\<lparr>data := (data sg)[k * W * 2 + j := map astype_int32 [cid, cids ! j]]\<rparr>"
  have idx: "int k * int W * 2 + int j = int (k * W * 2 + j)" by simp
  have set: "setitem sg (int k * int W * 2 + int j) [cid, cids ! j] = Inr ?sg"
    unfolding idx using Cons.prems by (intro setitem_row) simp_all
  have rest: "skipgram_loop v center (int k) (int W) (map (\<lambda>j. (int j, ctx ! j)) js) ?sg =
     Inr (?sg\<lparr>data := fold (\<lambda>j d. d[k * W * 2 + j := [astype_int32 cid, astype_int32 (cids ! j)]]) js (data ?sg)\<rparr>)"
    using Cons.prems by (intro Cons.IH) simp_all
  show ?case
    using Cons.prems set rest by simp
qed

lemma fold_update_block:
  "m \<le> L \<Longrightarrow> b + L \<le> length d \<Longrightarrow>
   fold (\<lambda>j d. d[b + j := f j]) [m..<L] d = take (b + m) d @ map f [m..<L] @ drop (b + L) d"
proof (induction "L - m" arbitrary: m d)
  case 0
  then show ?case by simp
next
  case (Suc n)
  then have lt: "m < L" by simp
  have step: "fold (\<lambda>j d. d[b + j := f j]) [Suc m..<L] (d[b + m := f m])
      = take (b + Suc m) (d[b + m := f m]) @ map f [Suc m..<L] @ drop (b + L) (d[b + m := f m])"
    using Suc by (intro Suc.hyps(1)) simp_all
  have t: "take (b + Suc m) (d[b + m := f m]) = take (b + m) d @ [f m]"
    using Suc.prems lt by (simp add: take_Suc_conv_app_nth)
  have dr: "drop (b + L) (d[b + m := f m]) = drop (b + L) d"
    using lt by simp
  show ?case
    using lt step t dr by (simp add: upt_conv_Cons)
qed


lemma take_drop_nth: "a + n \<le> length xs \<Longrightarrow> take n (drop a xs) = map ((!) xs) [a..<a + n]"
  by (rule nth_equalityI) simp_all

lemma context_window_slices:
  assumes "k + 2 * W < length xs"
  shows "take W (drop k xs) @ take W (drop (W + k + 1) xs) = context_window xs W (k + W)"
proof -
  have "take W (drop k xs) = map ((!) xs) [k..<k + W]"
    using assms by (intro take_drop_nth) simp
  moreover have "take W (drop (W + k + 1) xs) = map ((!) xs) [W + k + 1..<W + k + 1 + W]"
    using assms by (intro take_drop_nth) simp
  ultimately show ?thesis
    by (simp add: context_window_def add.commute add.left_commute)
qed

lemma length_context_window [simp]: "length (context_window xs w (i + w)) = 2 * w"
  by (simp add: context_window_def)

lemma context_slices:
  assumes "k + 2 * W < length tokens"
  shows "py_slice tokens (int W + int k - int W) (int W + int k)
           @ py_slice tokens (int W + int k + 1) (int W + int k + int W + 1)
         = context_window tokens W (k + W)"
proof -
  have a: "py_slice tokens (int W + int k - int W) (int W + int k) = take W (drop k tokens)"
    using assms py_slice_nat [of k "W + k" tokens] by simp
  have "py_slice tokens (int (W + k + 1)) (int (W + k + 1 + W)) = take W (drop (W + k + 1) tokens)"
    using assms py_slice_nat [of "W + k + 1" "W + k + 1 + W" tokens] by simp
  then have b: "py_slice tokens (int W + int k + 1) (int W + int k + int W + 1)
      = take W (drop (W + k + 1) tokens)"
    by (simp add: add.commute add.left_commute)
  show ?thesis
    unfolding a b using assms by (rule context_window_slices)
qed

lemma all2_context_window:
  assumes "list_all2 P xs ys" and "p + w < length xs" and "w \<le> p"
  shows "list_all2 P (context_window xs w p) (context_window ys w p)"
proof -
  have len: "length xs = length ys" using assms(1) by (rule list_all2_lengthD)
  show ?thesis
    unfolding context_window_def list_all2_conv_all_nth
  proof (intro conjI allI impI)
    show "length (map ((!) xs) ([p - w..<p] @ [p + 1..<p + w + 1]))
        = length (map ((!) ys) ([p - w..<p] @ [p + 1..<p + w + 1]))" by simp
  next
    fix i assume "i < length (map ((!) xs) ([p - w..<p] @ [p + 1..<p + w + 1]))"
    then have i: "i < length ([p - w..<p] @ [p + 1..<p + w + 1])" by simp
    have "([p - w..<p] @ [p + 1..<p + w + 1]) ! i \<in> set ([p - w..<p] @ [p + 1..<p + w + 1])"
      using i by (rule nth_mem)
    then have "([p - w..<p] @ [p + 1..<p + w + 1]) ! i < length xs"
      using assms(2) by auto
    then have "P (xs ! (([p - w..<p] @ [p + 1..<p + w + 1]) ! i)) (ys ! (([p - w..<p] @ [p + 1..<p + w + 1]) ! i))"
      using assms(1) by (simp add: list_all2_conv_all_nth)
    then show "P (map ((!) xs) ([p - w..<p] @ [p + 1..<p + w + 1]) ! i)
                 (map ((!) ys) ([p - w..<p] @ [p + 1..<p + w + 1]) ! i)"
      using i by (simp only: nth_map)
  qed
qed

lemma window_loop_fold:
  assumes ids: "list_all2 (\<lambda>t i. getitem v t = Inr i) tokens ids"
    and "shape1 cbow = 2 * W + 1"
    and "shape1 sg = 2"
    and "\<forall>k\<in>set ks. k < shape0 cbow \<and> k + 2 * W < length tokens \<and> (k + 1) * W * 2 \<le> shape0 sg"
  shows "window_loop v tokens (int W) (map (\<lambda>k. (int k, int W + int k)) ks) (cbow, sg) =
     Inr (cbow\<lparr>data := fold (\<lambda>k d. d[k := map astype_int32 (cbow_ids ids W k)]) ks (data cbow)\<rparr>,
          sg\<lparr>data := fold (\<lambda>k d. fold (\<lambda>j d. d[k * W * 2 + j := map astype_int32 (skipgram_ids ids W k j)]) [0..<2 * W] d)
                        ks (data sg)\<rparr>)"
  using assms(2-)
proof (induction ks arbitrary: cbow sg)
  case Nil
  show ?case by simp
next
  case (Cons k ks)
  have k: "k < shape0 cbow" "k + 2 * W < length tokens" "(k + 1) * W * 2 \<le> shape0 sg"
    using Cons.prems by simp_all
  let ?ctx = "context_window tokens W (k + W)"
  let ?cids = "context_window ids W (k + W)"
  let ?cbow = "cbow\<lparr>data := (data cbow)[k := map astype_int32 (cbow_ids ids W k)]\<rparr>"
  let ?sg = "sg\<lparr>data := fold (\<lambda>j d. d[k * W * 2 + j := map astype_int32 (skipgram_ids ids W k j)]) [0..<2 * W] (data sg)\<rparr>"
  have len: "length ids = length tokens"
    using ids by (simp add: list_all2_lengthD)
  have center: "py_getitem tokens (int W + int k) = Inr (tokens ! (k + W))"
    using py_getitem_nat [of "k + W" tokens] k by (simp add: add.commute)
  have cid: "getitem v (tokens ! (k + W)) = Inr (ids ! (k + W))"
    using ids k by (simp add: list_all2_conv_all_nth)
  have ctx: "lookup_indices v ?ctx = Inr ?cids"
    using ids k by (intro lookup_indices_all2I all2_context_window) simp_all
  have ctxj: "\<forall>j\<in>set [0..<2 * W]. k * W * 2 + j < shape0 sg \<and> getitem v (?ctx ! j) = Inr (?cids ! j)"
  proof
    fix j assume "j \<in> set [0..<2 * W]"
    then have j: "j < 2 * W" by simp
    have "list_all2 (\<lambda>t i. getitem v t = Inr i) ?ctx ?cids"
      using ids k by (intro all2_context_window) simp_all
    then have "getitem v (?ctx ! j) = Inr (?cids ! j)"
      using j by (simp add: list_all2_conv_all_nth)
    moreover have "k * W * 2 + j < shape0 sg"
      using j k(3) by (simp add: algebra_simps)
    ultimately show "k * W * 2 + j < shape0 sg \<and> getitem v (?ctx ! j) = Inr (?cids ! j)" by simp
  qed
  have c1: "lookup_indices v [tokens ! (k + W)] = Inr [ids ! (k + W)]"
    using cid by simp
  have row: "setitem cbow (int W + int k - int W) (?cids @ [ids ! (k + W)]) = Inr ?cbow"
    using k Cons.prems(1) setitem_row [of k cbow "?cids @ [ids ! (k + W)]"]
    by (simp add: cbow_ids_def)
  have inner: "skipgram_loop v (tokens ! (k + W)) (int k) (int W) (py_enumerate ?ctx) sg = Inr ?sg"
    using skipgram_loop_fold [OF cid Cons.prems(2) ctxj]
    by (simp add: py_enumerate_conv skipgram_ids_def)
  have rest: "window_loop v tokens (int W) (map (\<lambda>k. (int k, int W + int k)) ks) (?cbow, ?sg) =
     Inr (?cbow\<lparr>data := fold (\<lambda>k d. d[k := map astype_int32 (cbow_ids ids W k)]) ks (data ?cbow)\<rparr>,
          ?sg\<lparr>data := fold (\<lambda>k d. fold (\<lambda>j d. d[k * W * 2 + j := map astype_int32 (skipgram_ids ids W k j)]) [0..<2 * W] d)
                        ks (data ?sg)\<rparr>)"
    using Cons.prems by (intro Cons.IH) simp_all
  have "window_loop v tokens (int W) ((int k, int W + int k) # map (\<lambda>k. (int k, int W + int k)) ks) (cbow, sg)
      = window_loop v tokens (int W) (map (\<lambda>k. (int k, int W + int k)) ks) (?cbow, ?sg)"
    by (simp only: window_loop.simps Let_def center context_slices [OF k(2)] ctx c1 row inner
          sum.case)
  then show ?case
    using rest by simp
qed


lemma fold_update_rows:
  "n \<le> length d \<Longrightarrow> fold (\<lambda>k d. d[k := f k]) [0..<n] d = map f [0..<n] @ drop n d"
proof (induction n)
  case 0
  show ?case by simp
next
  case (Suc n)
  then have "fold (\<lambda>k d. d[k := f k]) [0..<Suc n] d = (map f [0..<n] @ drop n d)[n := f n]"
    by simp
  also have "\<dots> = map f [0..<n] @ (drop n d)[0 := f n]"
    by (simp add: list_update_append)
  also have "(drop n d)[0 := f n] = f n # drop (Suc n) d"
    using Suc.prems by (simp add: Cons_nth_drop_Suc [symmetric])
  finally show ?case by simp
qed

lemma fold_update_groups:
  "n * (2 * W) \<le> length d \<Longrightarrow>
   fold (\<lambda>k d. fold (\<lambda>j d. d[k * W * 2 + j := g k j]) [0..<2 * W] d) [0..<n] d
     = concat (map (\<lambda>k. map (g k) [0..<2 * W]) [0..<n]) @ drop (n * (2 * W)) d"
proof (induction n)
  case 0
  show ?case by simp
next
  case (Suc n)
  let ?done = "concat (map (\<lambda>k. map (g k) [0..<2 * W]) [0..<n])"
  let ?d = "?done @ drop (n * (2 * W)) d"
  have len_done: "length ?done = n * (2 * W)"
    by (induction n) simp_all
  have len: "length ?d = length d"
    using Suc.prems by (simp add: len_done)
  have IH: "fold (\<lambda>k d. fold (\<lambda>j d. d[k * W * 2 + j := g k j]) [0..<2 * W] d) [0..<n] d = ?d"
    using Suc.prems by (intro Suc.IH) simp
  have "fold (\<lambda>j d. d[n * (2 * W) + j := g n j]) [0..<2 * W] ?d
      = take (n * (2 * W) + 0) ?d @ map (g n) [0..<2 * W] @ drop (n * (2 * W) + 2 * W) ?d"
    using Suc.prems len by (intro fold_update_block) simp_all
  also have "take (n * (2 * W) + 0) ?d = ?done"
    by (simp add: len_done)
  also have "drop (n * (2 * W) + 2 * W) ?d = drop (Suc n * (2 * W)) d"
    by (simp add: len_done add.commute)
  finally have "fold (\<lambda>j d. d[n * W * 2 + j := g n j]) [0..<2 * W] ?d
      = ?done @ map (g n) [0..<2 * W] @ drop (Suc n * (2 * W)) d"
    by (simp add: mult.assoc mult.commute mult.left_commute)
  then show ?case
    using IH by simp
qed

lemma np_zeros_nat:
  "np_zeros (int r) (int c) = Inr \<lparr>shape0 = r, shape1 = c, data = replicate r (replicate c 0)\<rparr>"
  by (simp add: np_zeros_def)

lemma generate_fold:
  assumes ids: "lookup_indices v tokens = Inr ids" and N: "length tokens = n + 2 * W"
  shows "generate v tokens (int W) =
     Inr (\<lparr>shape0 = n, shape1 = 2 * W + 1,
            data = map (\<lambda>i. map astype_int32 (cbow_ids ids W i)) [0..<n]\<rparr>,
          \<lparr>shape0 = n * (2 * W), shape1 = 2,
            data = concat (map (\<lambda>i. map (\<lambda>j. map astype_int32 (skipgram_ids ids W i j)) [0..<2 * W])
                               [0..<n])\<rparr>)"
proof -
  let ?cbow = "\<lparr>shape0 = n, shape1 = 2 * W + 1, data = replicate n (replicate (2 * W + 1) 0)\<rparr>"
  let ?sg = "\<lparr>shape0 = n * (2 * W), shape1 = 2, data = replicate (n * (2 * W)) (replicate 2 0)\<rparr>"
  have all2: "list_all2 (\<lambda>t i. getitem v t = Inr i) tokens ids"
    using ids by (rule lookup_indices_all2D)
  have a1: "int (length tokens) - 2 * int W = int n"
    using N by simp
  have a2: "2 * int W + 1 = int (2 * W + 1)"
    by simp
  have a3: "int n * (2 * int W) = int (n * (2 * W))"
    by simp
  have a4: "int (length tokens) - int W - int W = int n"
    using N by simp
  have z1: "np_zeros (int (length tokens) - 2 * int W) (2 * int W + 1) = Inr ?cbow"
    unfolding a1 a2 by (rule np_zeros_nat)
  have z2: "np_zeros ((int (length tokens) - 2 * int W) * (2 * int W)) 2 = Inr ?sg"
    unfolding a1 a3 using np_zeros_nat [of "n * (2 * W)" 2] by (simp del: of_nat_mult)
  have rng: "py_enumerate (py_range (int W) (int (length tokens) - int W))
      = map (\<lambda>k. (int k, int W + int k)) [0..<n]"
    unfolding enumerate_range a4 by simp
  have pre: "\<forall>k\<in>set [0..<n]. k < shape0 ?cbow \<and> k + 2 * W < length tokens
      \<and> (k + 1) * W * 2 \<le> shape0 ?sg"
  proof
    fix k assume "k \<in> set [0..<n]"
    then have k: "k < n" by simp
    then have "Suc k \<le> n" by simp
    then have "Suc k * (2 * W) \<le> n * (2 * W)"
      by (rule mult_le_mono1)
    then have "(k + 1) * W * 2 \<le> n * (2 * W)"
      by (simp only: Suc_eq_plus1 mult.assoc mult.commute [of W 2])
    then show "k < shape0 ?cbow \<and> k + 2 * W < length tokens \<and> (k + 1) * W * 2 \<le> shape0 ?sg"
      using k N by (simp del: mult_Suc mult_Suc_right)
  qed
  have loop: "window_loop v tokens (int W) (map (\<lambda>k. (int k, int W + int k)) [0..<n]) (?cbow, ?sg) =
     Inr (?cbow\<lparr>data := fold (\<lambda>k d. d[k := map astype_int32 (cbow_ids ids W k)]) [0..<n] (data ?cbow)\<rparr>,
          ?sg\<lparr>data := fold (\<lambda>k d. fold (\<lambda>j d. d[k * W * 2 + j := map astype_int32 (skipgram_ids ids W k j)]) [0..<2 * W] d)
                        [0..<n] (data ?sg)\<rparr>)"
    using all2 _ _ pre by (rule window_loop_fold) simp_all
  have d1: "fold (\<lambda>k d. d[k := map astype_int32 (cbow_ids ids W k)]) [0..<n] (data ?cbow)
      = map (\<lambda>i. map astype_int32 (cbow_ids ids W i)) [0..<n]"
    using fold_update_rows [of n "data ?cbow" "\<lambda>k. map astype_int32 (cbow_ids ids W k)"]
    by simp
  have d2: "fold (\<lambda>k d. fold (\<lambda>j d. d[k * W * 2 + j := map astype_int32 (skipgram_ids ids W k j)]) [0..<2 * W] d)
              [0..<n] (data ?sg)
      = concat (map (\<lambda>i. map (\<lambda>j. map astype_int32 (skipgram_ids ids W i j)) [0..<2 * W]) [0..<n])"
    using fold_update_groups [of n W "data ?sg" "\<lambda>k j. map astype_int32 (skipgram_ids ids W k j)"]
    by simp
  show ?thesis
    unfolding generate_def z1 z2 rng sum.case loop d1 d2 by simp
qed


lemma generate_tables:
  assumes ids: "lookup_indices v tokens = Inr ids"
    and w: "0 \<le> w" "2 * w \<le> int (length tokens)"
  shows "generate v tokens w =
     Inr (\<lparr>shape0 = length tokens - 2 * nat w, shape1 = 2 * nat w + 1,
            data = cbow_table ids (nat w)\<rparr>,
          \<lparr>shape0 = (length tokens - 2 * nat w) * (2 * nat w), shape1 = 2,
            data = skipgram_table ids (nat w)\<rparr>)"
proof -
  have len: "length ids = length tokens"
    using lookup_indices_all2D [OF ids] by (simp add: list_all2_lengthD)
  have N: "length tokens = (length tokens - 2 * nat w) + 2 * nat w"
    using w by simp
  have "generate v tokens (int (nat w)) =
     Inr (\<lparr>shape0 = length tokens - 2 * nat w, shape1 = 2 * nat w + 1,
            data = cbow_table ids (nat w)\<rparr>,
          \<lparr>shape0 = (length tokens - 2 * nat w) * (2 * nat w), shape1 = 2,
            data = skipgram_table ids (nat w)\<rparr>)"
    unfolding cbow_table_def skipgram_table_def len using ids N by (rule generate_fold)
  then show ?thesis
    using w by simp
qed

subsection \<open>The tables as lists\<close>

lemma length_cbow_ids: "length (cbow_ids ids w i) = 2 * w + 1"
  by (simp add: cbow_ids_def)

lemma length_cbow_table: "length (cbow_table ids w) = length ids - 2 * w"
  by (simp add: cbow_table_def)

lemma nth_cbow_table:
  "i < length ids - 2 * w \<Longrightarrow> cbow_table ids w ! i = map astype_int32 (cbow_ids ids w i)"
  by (simp add: cbow_table_def)

lemma cbow_table_rows: "row \<in> set (cbow_table ids w) \<Longrightarrow> length row = 2 * w + 1"
  by (auto simp: cbow_table_def length_cbow_ids)

lemma length_concat_blocks:
  "length (concat (map (\<lambda>i. map (g i) [0..<L]) [0..<n])) = n * L"
  by (induction n) simp_all

lemma nth_concat_blocks:
  "i < n \<Longrightarrow> j < L \<Longrightarrow> concat (map (\<lambda>i. map (g i) [0..<L]) [0..<n]) ! (i * L + j) = g i j"
proof (induction n)
  case 0
  then show ?case by simp
next
  case (Suc n)
  show ?case
  proof (cases "i < n")
    case True
    then have "i * L + j < n * L"
      using Suc.prems(2) by (metis add_less_cancel_left less_le_trans mult_Suc mult_le_mono1 Suc_leI add.commute)
    then show ?thesis
      using True Suc by (simp add: nth_append length_concat_blocks)
  next
    case False
    then have "i = n" using Suc.prems by simp
    then show ?thesis
      using Suc.prems by (simp add: nth_append length_concat_blocks)
  qed
qed

lemma length_skipgram_table: "length (skipgram_table ids w) = (length ids - 2 * w) * (2 * w)"
  unfolding skipgram_table_def by (rule length_concat_blocks)

lemma nth_skipgram_table:
  "i < length ids - 2 * w \<Longrightarrow> j < 2 * w \<Longrightarrow>
   skipgram_table ids w ! (i * (2 * w) + j) = map astype_int32 (skipgram_ids ids w i j)"
  unfolding skipgram_table_def by (rule nth_concat_blocks)

lemma skipgram_table_rows: "row \<in> set (skipgram_table ids w) \<Longrightarrow> length row = 2"
  by (auto simp: skipgram_table_def skipgram_ids_def)

lemma lookup_indices_length: "lookup_indices v ts = Inr ids \<Longrightarrow> length ids = length ts"
  using lookup_indices_all2D [of v ts ids] by (simp add: list_all2_lengthD)


lemma generate_tables_nat:
  assumes "lookup_indices v tokens = Inr ids" and "2 * W \<le> length tokens"
  shows "generate v tokens (int W) =
     Inr (\<lparr>shape0 = length tokens - 2 * W, shape1 = 2 * W + 1, data = cbow_table ids W\<rparr>,
          \<lparr>shape0 = (length tokens - 2 * W) * (2 * W), shape1 = 2, data = skipgram_table ids W\<rparr>)"
  using generate_tables [OF assms(1), of "int W"] assms(2) by simp

subsection \<open>The claims about the tables\<close>

text \<open>
  C1.  For a positive radius \<open>W\<close> and at least \<open>2 W + 1\<close> tokens with identifiers \<open>ids\<close>,
  the generator returns, and row \<open>i\<close> of the CBOW table (for every \<open>i < N - 2 W\<close>) holds,
  in its first \<open>2 W\<close> columns, the identifiers at positions \<open>p - W .. p - 1\<close> followed by
  those at \<open>p + 1 .. p + W\<close>, where \<open>p = i + W\<close>, and in column \<open>2 W\<close> the identifier at
  position \<open>p\<close>; the identifiers are stored as \<^verbatim>\<open>int32\<close>.
\<close>

theorem cbow_row_contents:
  assumes "0 < W" and "2 * W + 1 \<le> length tokens"
    and "lookup_indices v tokens = Inr ids"
    and "i < length tokens - 2 * W" and "p = i + W"
  shows "\<exists>cbow skipgram. generate v tokens (int W) = Inr (cbow, skipgram) \<and>
     length (data cbow ! i) = 2 * W + 1 \<and>
     take (2 * W) (data cbow ! i)
       = map (\<lambda>q. astype_int32 (ids ! q)) ([p - W..<p] @ [p + 1..<p + W + 1]) \<and>
     data cbow ! i ! (2 * W) = astype_int32 (ids ! p)"
proof -
  have len: "length ids = length tokens"
    using assms(3) by (rule lookup_indices_length)
  have gen: "generate v tokens (int W) =
     Inr (\<lparr>shape0 = length tokens - 2 * W, shape1 = 2 * W + 1, data = cbow_table ids W\<rparr>,
          \<lparr>shape0 = (length tokens - 2 * W) * (2 * W), shape1 = 2, data = skipgram_table ids W\<rparr>)"
    using assms(2,3) by (intro generate_tables_nat) simp_all
  have row: "cbow_table ids W ! i = map astype_int32 (context_window ids W p) @ [astype_int32 (ids ! p)]"
    using assms(4,5) len by (simp add: nth_cbow_table cbow_ids_def)
  have lw: "length (map astype_int32 (context_window ids W p)) = 2 * W"
    using assms(5) by simp
  have "take (2 * W) (cbow_table ids W ! i) = map astype_int32 (context_window ids W p)"
    unfolding row using lw by simp
  moreover have "cbow_table ids W ! i ! (2 * W) = astype_int32 (ids ! p)"
    unfolding row using lw by (simp add: nth_append)
  moreover have "length (cbow_table ids W ! i) = 2 * W + 1"
    unfolding row using lw by simp
  ultimately show ?thesis
    unfolding gen by (simp add: context_window_def)
qed

theorem cbow_row_contents_witness:
  "lookup_indices \<lparr>itos = [''<PAD>'', ''<UNK>'', ''<SOS>'', ''<EOS>'', ''film'', ''good''],
                   default_index = Some 1\<rparr> [''good'', ''film'', ''bad'', ''film'', ''good'']
     = Inr [5, 4, 1, 4, 5] \<and>
   (\<exists>cbow skipgram.
      generate \<lparr>itos = [''<PAD>'', ''<UNK>'', ''<SOS>'', ''<EOS>'', ''film'', ''good''],
                default_index = Some 1\<rparr> [''good'', ''film'', ''bad'', ''film'', ''good''] 2
        = Inr (cbow, skipgram) \<and>
      data cbow ! 0 = [5, 4, 4, 5, 1])"
proof -
  let ?v = "\<lparr>itos = [''<PAD>'', ''<UNK>'', ''<SOS>'', ''<EOS>'', ''film'', ''good''],
             default_index = Some 1\<rparr>"
  let ?tokens = "[''good'', ''film'', ''bad'', ''film'', ''good'']"
  have ids: "lookup_indices ?v ?tokens = Inr [5, 4, 1, 4, 5]"
    by (simp add: getitem_def)
  have "\<exists>cbow skipgram. generate ?v ?tokens (int 2) = Inr (cbow, skipgram) \<and>
     length (data cbow ! 0) = 2 * 2 + 1 \<and>
     take (2 * 2) (data cbow ! 0)
       = map (\<lambda>q. astype_int32 ([5, 4, 1, 4, 5] ! q)) ([2 - 2..<2] @ [2 + 1..<2 + 2 + 1]) \<and>
     data cbow ! 0 ! (2 * 2) = astype_int32 ([5, 4, 1, 4, 5] ! 2)"
    using ids by (intro cbow_row_contents) simp_all
  then obtain cbow skipgram where g: "generate ?v ?tokens 2 = Inr (cbow, skipgram)"
    and l: "length (data cbow ! 0) = 5"
    and t: "take 4 (data cbow ! 0) = [5, 4, 4, 5]"
    and c: "data cbow ! 0 ! 4 = 1"
    by (auto simp: astype_int32_def upt_rec)
  have "data cbow ! 0 = take 4 (data cbow ! 0) @ [data cbow ! 0 ! 4]"
    using l by (metis Suc_eq_plus1 add_2_eq_Suc' lessI numeral_Bit0 take_Suc_conv_app_nth take_all order_refl numeral_3_eq_3 numeral_Bit1 One_nat_def)
  then have "data cbow ! 0 = [5, 4, 4, 5, 1]"
    using t c by simp
  with ids g show ?thesis by blast
qed

text \<open>
  C2.  For a positive radius \<open>W\<close> and at least \<open>2 W + 1\<close> tokens, every Skip-gram row of
  group \<open>i\<close> (rows \<open>i * 2 W + j\<close> for \<open>j < 2 W\<close>) has as first column the center of CBOW
  row \<open>i\<close> (its column \<open>2 W\<close>) and as second column the \<open>j\<close>-th context column of CBOW
  row \<open>i\<close>: same center throughout the group, contexts in the same order.
\<close>

theorem skipgram_group_matches_cbow:
  assumes "0 < W" and "2 * W + 1 \<le> length tokens"
    and "lookup_indices v tokens = Inr ids"
    and "i < length tokens - 2 * W" and "j < 2 * W"
  shows "\<exists>cbow skipgram. generate v tokens (int W) = Inr (cbow, skipgram) \<and>
     i < length (data cbow) \<and> i * (2 * W) + j < length (data skipgram) \<and>
     data skipgram ! (i * (2 * W) + j) = [data cbow ! i ! (2 * W), data cbow ! i ! j]"
proof -
  let ?n = "length tokens - 2 * W"
  have len: "length ids = length tokens"
    using assms(3) by (rule lookup_indices_length)
  have gen: "generate v tokens (int W) =
     Inr (\<lparr>shape0 = ?n, shape1 = 2 * W + 1, data = cbow_table ids W\<rparr>,
          \<lparr>shape0 = ?n * (2 * W), shape1 = 2, data = skipgram_table ids W\<rparr>)"
    using assms(2,3) by (intro generate_tables_nat) simp_all
  have lw: "length (context_window ids W (i + W)) = 2 * W"
    by simp
  have row: "cbow_table ids W ! i
      = map astype_int32 (context_window ids W (i + W)) @ [astype_int32 (ids ! (i + W))]"
    using assms(4) len by (simp add: nth_cbow_table cbow_ids_def)
  have center: "cbow_table ids W ! i ! (2 * W) = astype_int32 (ids ! (i + W))"
    unfolding row using lw by (simp add: nth_append)
  have ctx: "cbow_table ids W ! i ! j = astype_int32 (context_window ids W (i + W) ! j)"
    unfolding row using lw assms(5) by (simp add: nth_append)
  have sg: "skipgram_table ids W ! (i * (2 * W) + j)
      = [astype_int32 (ids ! (i + W)), astype_int32 (context_window ids W (i + W) ! j)]"
    using assms(4,5) len by (simp add: nth_skipgram_table skipgram_ids_def)
  have "Suc i \<le> ?n"
    using assms(4) by simp
  then have "Suc i * (2 * W) \<le> ?n * (2 * W)"
    by (rule mult_le_mono1)
  then have bound: "i * (2 * W) + j < length (skipgram_table ids W)"
    using assms(5) len by (simp add: length_skipgram_table)
  show ?thesis
    unfolding gen using assms(4) len bound
    by (simp add: sg center ctx length_cbow_table)
qed

theorem skipgram_group_matches_cbow_witness:
  "lookup_indices \<lparr>itos = [''<PAD>'', ''<UNK>'', ''<SOS>'', ''<EOS>'', ''film'', ''good''],
                   default_index = Some 1\<rparr> [''film'', ''good'', ''plot'', ''good'', ''film'', ''film'']
     = Inr [4, 5, 1, 5, 4, 4] \<and>
   (\<exists>cbow skipgram.
      generate \<lparr>itos = [''<PAD>'', ''<UNK>'', ''<SOS>'', ''<EOS>'', ''film'', ''good''],
                default_index = Some 1\<rparr> [''film'', ''good'', ''plot'', ''good'', ''film'', ''film''] 2
        = Inr (cbow, skipgram) \<and>
      data skipgram ! 7 = [data cbow ! 1 ! 4, data cbow ! 1 ! 3])"
proof -
  let ?v = "\<lparr>itos = [''<PAD>'', ''<UNK>'', ''<SOS>'', ''<EOS>'', ''film'', ''good''],
             default_index = Some 1\<rparr>"
  let ?tokens = "[''film'', ''good'', ''plot'', ''good'', ''film'', ''film'']"
  have ids: "lookup_indices ?v ?tokens = Inr [4, 5, 1, 5, 4, 4]"
    by (simp add: getitem_def)
  have "\<exists>cbow skipgram. generate ?v ?tokens (int 2) = Inr (cbow, skipgram) \<and>
     1 < length (data cbow) \<and> 1 * (2 * 2) + 3 < length (data skipgram) \<and>
     data skipgram ! (1 * (2 * 2) + 3) = [data cbow ! 1 ! (2 * 2), data cbow ! 1 ! 3]"
    using ids by (intro skipgram_group_matches_cbow) simp_all
  then have "\<exists>cbow skipgram. generate ?v ?tokens 2 = Inr (cbow, skipgram) \<and>
      data skipgram ! 7 = [data cbow ! 1 ! 4, data cbow ! 1 ! 3]"
    by auto
  with ids show ?thesis by (rule conjI)
qed

text \<open>
  C3.  For a positive radius \<open>W\<close> and \<open>N \<ge> 2 W + 1\<close> tokens the generator returns a CBOW
  table with \<open>N - 2 W\<close> rows and \<open>2 W + 1\<close> columns and a Skip-gram table with
  \<open>(N - 2 W) * 2 W\<close> rows and 2 columns; the shapes are those of the stored rows.
\<close>

theorem table_shapes:
  assumes "0 < W" and "2 * W + 1 \<le> length tokens"
    and "lookup_indices v tokens = Inr ids"
  shows "\<exists>cbow skipgram. generate v tokens (int W) = Inr (cbow, skipgram) \<and>
     shape0 cbow = length tokens - 2 * W \<and> shape1 cbow = 2 * W + 1 \<and>
     length (data cbow) = length tokens - 2 * W \<and>
     list_all (\<lambda>row. length row = 2 * W + 1) (data cbow) \<and>
     shape0 skipgram = (length tokens - 2 * W) * (2 * W) \<and> shape1 skipgram = 2 \<and>
     length (data skipgram) = (length tokens - 2 * W) * (2 * W) \<and>
     list_all (\<lambda>row. length row = 2) (data skipgram)"
proof -
  have len: "length ids = length tokens"
    using assms(3) by (rule lookup_indices_length)
  have gen: "generate v tokens (int W) =
     Inr (\<lparr>shape0 = length tokens - 2 * W, shape1 = 2 * W + 1, data = cbow_table ids W\<rparr>,
          \<lparr>shape0 = (length tokens - 2 * W) * (2 * W), shape1 = 2, data = skipgram_table ids W\<rparr>)"
    using assms(2,3) by (intro generate_tables_nat) simp_all
  show ?thesis
    unfolding gen
    by (simp add: length_cbow_table length_skipgram_table len list_all_iff
          cbow_table_rows skipgram_table_rows)
qed

theorem table_shapes_witness:
  "lookup_indices \<lparr>itos = [''<PAD>'', ''<UNK>'', ''<SOS>'', ''<EOS>'', ''film'', ''good''],
                   default_index = Some 1\<rparr>
      [''good'', ''film'', ''good'', ''film'', ''good'', ''film'', ''good'']
     = Inr [5, 4, 5, 4, 5, 4, 5] \<and>
   (\<exists>cbow skipgram.
      generate \<lparr>itos = [''<PAD>'', ''<UNK>'', ''<SOS>'', ''<EOS>'', ''film'', ''good''],
                default_index = Some 1\<rparr>
        [''good'', ''film'', ''good'', ''film'', ''good'', ''film'', ''good''] 2
        = Inr (cbow, skipgram) \<and>
      shape0 cbow = 3 \<and> shape1 cbow = 5 \<and> length (data cbow) = 3 \<and>
      shape0 skipgram = 12 \<and> shape1 skipgram = 2 \<and> length (data skipgram) = 12)"
proof -
  let ?v = "\<lparr>itos = [''<PAD>'', ''<UNK>'', ''<SOS>'', ''<EOS>'', ''film'', ''good''],
             default_index = Some 1\<rparr>"
  let ?tokens = "[''good'', ''film'', ''good'', ''film'', ''good'', ''film'', ''good'']"
  have ids: "lookup_indices ?v ?tokens = Inr [5, 4, 5, 4, 5, 4, 5]"
    by (simp add: getitem_def)
  have "\<exists>cbow skipgram. generate ?v ?tokens (int 2) = Inr (cbow, skipgram) \<and>
     shape0 cbow = length ?tokens - 2 * 2 \<and> shape1 cbow = 2 * 2 + 1 \<and>
     length (data cbow) = length ?tokens - 2 * 2 \<and>
     list_all (\<lambda>row. length row = 2 * 2 + 1) (data cbow) \<and>
     shape0 skipgram = (length ?tokens - 2 * 2) * (2 * 2) \<and> shape1 skipgram = 2 \<and>
     length (data skipgram) = (length ?tokens - 2 * 2) * (2 * 2) \<and>
     list_all (\<lambda>row. length row = 2) (data skipgram)"
    using ids by (intro table_shapes) simp_all
  then have "\<exists>cbow skipgram. generate ?v ?tokens 2 = Inr (cbow, skipgram) \<and>
      shape0 cbow = 3 \<and> shape1 cbow = 5 \<and> length (data cbow) = 3 \<and>
      shape0 skipgram = 12 \<and> shape1 skipgram = 2 \<and> length (data skipgram) = 12"
    by auto
  with ids show ?thesis by (rule conjI)
qed


text \<open>
  C4.  The concrete scenario: seven tokens whose identifiers are \<open>10, \<dots>, 16\<close> in the
  notebook's vocabulary, radius 2.  The CBOW rows and the Skip-gram rows (groups for
  center positions 2, 3 and 4) are exactly the listed ones.
\<close>

theorem concrete_scenario:
  "\<exists>v cbow skipgram.
     vocabulary [(''movie'', 90), (''film'', 80), (''good'', 70), (''story'', 60), (''time'', 50),
        (''role'', 40), (''watch'', 30), (''bad'', 29), (''great'', 28), (''love'', 27),
        (''scene'', 26), (''end'', 25), (''plot'', 24)] = Inr v \<and>
     lookup_indices v [''watch'', ''bad'', ''great'', ''love'', ''scene'', ''end'', ''plot'']
       = Inr [10, 11, 12, 13, 14, 15, 16] \<and>
     generate v [''watch'', ''bad'', ''great'', ''love'', ''scene'', ''end'', ''plot''] 2
       = Inr (cbow, skipgram) \<and>
     map (map sint) (data cbow)
       = [[10, 11, 13, 14, 12], [11, 12, 14, 15, 13], [12, 13, 15, 16, 14]] \<and>
     map (map sint) (data skipgram)
       = [[12, 10], [12, 11], [12, 13], [12, 14],
          [13, 11], [13, 12], [13, 14], [13, 15],
          [14, 12], [14, 13], [14, 15], [14, 16]]"
proof -
  let ?v = "\<lparr>itos = [''<PAD>'', ''<UNK>'', ''<SOS>'', ''<EOS>'', ''movie'', ''film'', ''good'',
               ''story'', ''time'', ''role'', ''watch'', ''bad'', ''great'', ''love'', ''scene'',
               ''end'', ''plot''], default_index = Some 1\<rparr>"
  let ?tokens = "[''watch'', ''bad'', ''great'', ''love'', ''scene'', ''end'', ''plot'']"
  have v: "vocabulary [(''movie'', 90), (''film'', 80), (''good'', 70), (''story'', 60), (''time'', 50),
        (''role'', 40), (''watch'', 30), (''bad'', 29), (''great'', 28), (''love'', 27),
        (''scene'', 26), (''end'', 25), (''plot'', 24)] = Inr ?v"
    by (simp add: vocabulary_def vocab_def token_ordered_dict_def TOP_TOKENS_def SPECIALS_def
          PAD_TOKEN_def UNK_TOKEN_def SOS_TOKEN_def EOS_TOKEN_def getitem_def
          set_default_index_def)
  have ids: "lookup_indices ?v ?tokens = Inr [10, 11, 12, 13, 14, 15, 16]"
    by (simp add: getitem_def)
  have gen: "generate ?v ?tokens 2 =
     Inr (\<lparr>shape0 = 3, shape1 = 5, data = cbow_table [10, 11, 12, 13, 14, 15, 16] 2\<rparr>,
          \<lparr>shape0 = 12, shape1 = 2, data = skipgram_table [10, 11, 12, 13, 14, 15, 16] 2\<rparr>)"
    using generate_tables [OF ids, of 2] by simp
  have c: "map (map sint) (data \<lparr>shape0 = 3, shape1 = 5,
        data = cbow_table [10, 11, 12, 13, 14, 15, 16] 2\<rparr>)
      = [[10, 11, 13, 14, 12], [11, 12, 14, 15, 13], [12, 13, 15, 16, 14]]"
    by (simp add: cbow_table_def cbow_ids_def context_window_def astype_int32_def upt_rec
          nth_Cons')
  have s: "map (map sint) (data \<lparr>shape0 = 12, shape1 = 2,
        data = skipgram_table [10, 11, 12, 13, 14, 15, 16] 2\<rparr>)
      = [[12, 10], [12, 11], [12, 13], [12, 14],
         [13, 11], [13, 12], [13, 14], [13, 15],
         [14, 12], [14, 13], [14, 15], [14, 16]]"
    by (simp add: skipgram_table_def skipgram_ids_def context_window_def astype_int32_def upt_rec
          nth_Cons')
  show ?thesis
    by (rule exI [of _ ?v],
        rule exI [of _ "\<lparr>shape0 = 3, shape1 = 5,
                         data = cbow_table [10, 11, 12, 13, 14, 15, 16] 2\<rparr>"],
        rule exI [of _ "\<lparr>shape0 = 12, shape1 = 2,
                         data = skipgram_table [10, 11, 12, 13, 14, 15, 16] 2\<rparr>"],
        intro conjI v ids gen c s)
qed

lemma generate_empty:
  assumes "0 \<le> w" and "int (length tokens) = 2 * w"
  shows "generate v tokens w =
     Inr (\<lparr>shape0 = 0, shape1 = nat (2 * w + 1), data = []\<rparr>, \<lparr>shape0 = 0, shape1 = 2, data = []\<rparr>)"
proof -
  have "py_range w (int (length tokens) - w) = []"
    using assms by (simp add: py_range_def)
  then show ?thesis
    using assms by (simp add: generate_def np_zeros_def py_enumerate_def)
qed

lemma generate_too_short:
  assumes "0 \<le> w" and "int (length tokens) < 2 * w"
  shows "generate v tokens w = Inl ValueError"
  using assms by (simp add: generate_def np_zeros_def)

lemma generate_negative_radius:
  assumes "w < 0"
  shows "generate v tokens w = Inl ValueError"
  using assms by (simp add: generate_def np_zeros_def)

text \<open>
  C5 as stated fails: three tokens and radius 2 give no empty tables but a
  \<^verbatim>\<open>ValueError\<close>, raised by \<^verbatim>\<open>np.zeros\<close> for the row count \<open>3 - 4\<close>.
\<close>

theorem short_input_counterexample:
  "generate \<lparr>itos = [''<PAD>'', ''<UNK>'', ''<SOS>'', ''<EOS>'', ''film'', ''good''],
             default_index = Some 1\<rparr> [''good'', ''film'', ''good''] 2 = Inl ValueError"
  by (simp add: generate_def np_zeros_def)

text \<open>
  C5 as the code has it.  With a positive radius \<open>w\<close> and fewer than \<open>2 w + 1\<close> tokens:
  exactly \<open>2 w\<close> tokens give two tables with zero rows; fewer than \<open>2 w\<close> tokens make the
  allocation of the CBOW table raise \<^verbatim>\<open>ValueError\<close> (a negative dimension), and no
  table is returned.
\<close>

theorem short_input:
  assumes "0 < w" and "int (length tokens) < 2 * w + 1"
  shows "generate v tokens w =
     (if int (length tokens) = 2 * w
      then Inr (\<lparr>shape0 = 0, shape1 = nat (2 * w + 1), data = []\<rparr>,
                \<lparr>shape0 = 0, shape1 = 2, data = []\<rparr>)
      else Inl ValueError)"
  using assms by (simp add: generate_empty generate_too_short)

theorem short_input_witness:
  "generate \<lparr>itos = [''<PAD>'', ''<UNK>'', ''<SOS>'', ''<EOS>'', ''film'', ''good''],
             default_index = Some 1\<rparr> [''good'', ''film'', ''good'', ''film''] 2
     = Inr (\<lparr>shape0 = 0, shape1 = 5, data = []\<rparr>, \<lparr>shape0 = 0, shape1 = 2, data = []\<rparr>)
   \<and> generate \<lparr>itos = [''<PAD>'', ''<UNK>'', ''<SOS>'', ''<EOS>'', ''film'', ''good''],
             default_index = Some 1\<rparr> [''good''] 2 = Inl ValueError"
  using short_input [of 2 "[''good'', ''film'', ''good'', ''film'']"
          "\<lparr>itos = [''<PAD>'', ''<UNK>'', ''<SOS>'', ''<EOS>'', ''film'', ''good''],
            default_index = Some 1\<rparr>"]
        short_input [of 2 "[''good'']"
          "\<lparr>itos = [''<PAD>'', ''<UNK>'', ''<SOS>'', ''<EOS>'', ''film'', ''good''],
            default_index = Some 1\<rparr>"]
  by simp

subsection \<open>Entries of the tables\<close>

lemma context_window_subset:
  assumes "p + w < length xs"
  shows "set (context_window xs w p) \<subseteq> set xs"
  unfolding context_window_def using assms by (auto intro!: nth_mem)

lemma cbow_ids_subset:
  assumes "i + 2 * w < length ids"
  shows "set (cbow_ids ids w i) \<subseteq> set ids"
proof -
  have "set (context_window ids w (i + w)) \<subseteq> set ids"
    using assms by (intro context_window_subset) simp
  moreover have "ids ! (i + w) \<in> set ids"
    using assms by (intro nth_mem) simp
  ultimately show ?thesis
    by (simp add: cbow_ids_def)
qed

lemma skipgram_ids_subset:
  assumes "i + 2 * w < length ids" and "j < 2 * w"
  shows "set (skipgram_ids ids w i j) \<subseteq> set ids"
proof -
  have sub: "set (context_window ids w (i + w)) \<subseteq> set ids"
    using assms by (intro context_window_subset) simp
  have "context_window ids w (i + w) ! j \<in> set (context_window ids w (i + w))"
    using assms(2) by (intro nth_mem) simp
  then have "context_window ids w (i + w) ! j \<in> set ids"
    using sub by blast
  moreover have "ids ! (i + w) \<in> set ids"
    using assms by (intro nth_mem) simp
  ultimately show ?thesis
    by (simp add: skipgram_ids_def)
qed

lemma cbow_table_entries:
  assumes "row \<in> set (cbow_table ids w)" and "x \<in> set row"
  shows "x \<in> astype_int32 ` set ids"
proof -
  obtain i where i: "i < length ids - 2 * w" and row: "row = map astype_int32 (cbow_ids ids w i)"
    using assms(1) by (auto simp: cbow_table_def)
  have "set (cbow_ids ids w i) \<subseteq> set ids"
    using i by (intro cbow_ids_subset) simp
  then show ?thesis
    using assms(2) row by auto
qed

lemma skipgram_table_entries:
  assumes "row \<in> set (skipgram_table ids w)" and "x \<in> set row"
  shows "x \<in> astype_int32 ` set ids"
proof -
  obtain i j where i: "i < length ids - 2 * w" and j: "j < 2 * w"
    and row: "row = map astype_int32 (skipgram_ids ids w i j)"
    using assms(1) by (auto simp: skipgram_table_def)
  have "set (skipgram_ids ids w i j) \<subseteq> set ids"
    using i j by (intro skipgram_ids_subset) simp_all
  then show ?thesis
    using assms(2) row by auto
qed

lemma sint_astype_int32: "sint (astype_int32 x) = (x + 2 ^ 31) mod 2 ^ 32 - 2 ^ 31"
  by (simp add: astype_int32_def sint_sbintrunc' signed_take_bit_eq_take_bit_shift take_bit_eq_mod)

lemma sint_astype_int32_fits:
  "- (2 ^ 31) \<le> x \<Longrightarrow> x < 2 ^ 31 \<Longrightarrow> sint (astype_int32 x) = x"
  by (simp add: astype_int32_def sint_sbintrunc' signed_take_bit_int_eq_self)

lemma generate_Inr_bounds:
  assumes "generate v tokens w = Inr r"
  shows "0 \<le> w \<and> 2 * w \<le> int (length tokens)"
proof (rule ccontr)
  assume "\<not> (0 \<le> w \<and> 2 * w \<le> int (length tokens))"
  then have "generate v tokens w = Inl ValueError"
    using generate_negative_radius [of w v tokens] generate_too_short [of w tokens v]
    by (cases "w < 0") simp_all
  then show False
    using assms by simp
qed

subsection \<open>The vocabulary\<close>

lemma stoi_less: "stoi xs t = Some i \<Longrightarrow> i < length xs"
  by (induction xs arbitrary: i) (auto split: if_splits)

lemma stoi_None_iff: "stoi xs t = None \<longleftrightarrow> t \<notin> set xs"
  by (induction xs) auto

lemma getitem_default:
  "default_index v = Some d \<Longrightarrow>
   getitem v t = Inr (case stoi (itos v) t of Some i \<Rightarrow> int i | None \<Rightarrow> d)"
  by (simp add: getitem_def split: option.splits)

lemma lookup_indices_default:
  "default_index v = Some d \<Longrightarrow>
   lookup_indices v ts = Inr (map (\<lambda>t. case stoi (itos v) t of Some i \<Rightarrow> int i | None \<Rightarrow> d) ts)"
  by (induction ts) (simp_all add: getitem_default)

lemma stoi_UNK: "stoi (SPECIALS @ xs) UNK_TOKEN = Some 1"
  by (simp add: SPECIALS_def PAD_TOKEN_def UNK_TOKEN_def SOS_TOKEN_def EOS_TOKEN_def)

lemma vocabulary_eq:
  "vocabulary token_counter
     = Inr (set_default_index (vocab (token_ordered_dict token_counter) SPECIALS) 1)"
  by (simp add: vocabulary_def Let_def getitem_def vocab_def stoi_UNK)

lemma len_vocab: "len (vocab od sp) \<le> length sp + length od"
  by (simp add: vocab_def len_def Let_def)

lemma vocabulary_props:
  assumes "vocabulary token_counter = Inr v"
  shows "default_index v = Some 1" and "4 \<le> len v" and "len v \<le> 20004"
    and "itos v ! 1 = UNK_TOKEN" and "stoi (itos v) UNK_TOKEN = Some 1"
proof -
  have v: "v = set_default_index (vocab (token_ordered_dict token_counter) SPECIALS) 1"
    using assms by (simp add: vocabulary_eq)
  show "default_index v = Some 1"
    by (simp add: v set_default_index_def)
  show "4 \<le> len v"
    by (simp add: v set_default_index_def len_def vocab_def SPECIALS_def)
  have "length (token_ordered_dict token_counter) \<le> 20000"
    by (simp add: token_ordered_dict_def TOP_TOKENS_def)
  moreover have "len v = len (vocab (token_ordered_dict token_counter) SPECIALS)"
    by (simp add: v set_default_index_def len_def)
  moreover have "length SPECIALS = 4"
    by (simp add: SPECIALS_def)
  ultimately show "len v \<le> 20004"
    using len_vocab [of "token_ordered_dict token_counter" SPECIALS] by simp
  show "itos v ! 1 = UNK_TOKEN"
    by (simp add: v set_default_index_def vocab_def SPECIALS_def)
  show "stoi (itos v) UNK_TOKEN = Some 1"
    by (simp add: v set_default_index_def vocab_def stoi_UNK)
qed


text \<open>
  The vocabulary cell never fails, and its vocabulary resolves every token list: the
  premise \<open>lookup_indices v tokens = Inr ids\<close> of the theorems about the tables always
  holds in the notebook.
\<close>

lemma vocabulary_resolves:
  "\<exists>v. vocabulary token_counter = Inr v \<and> (\<forall>tokens. \<exists>ids. lookup_indices v tokens = Inr ids)"
proof -
  obtain v where v: "vocabulary token_counter = Inr v"
    by (simp add: vocabulary_eq)
  have "\<exists>ids. lookup_indices v tokens = Inr ids" for tokens
    using lookup_indices_default [OF vocabulary_props(1) [OF v]] by blast
  with v show ?thesis
    by blast
qed

subsection \<open>Radius, invalid identifiers and storage\<close>

lemma cbow_table_radius_0: "cbow_table ids 0 = map (\<lambda>x. [astype_int32 x]) ids"
  by (rule nth_equalityI) (simp_all add: cbow_table_def cbow_ids_def context_window_def)

lemma skipgram_table_radius_0: "skipgram_table ids 0 = []"
  by (simp add: skipgram_table_def)

lemma generate_radius_0:
  assumes "lookup_indices v tokens = Inr ids"
  shows "generate v tokens 0 =
     Inr (\<lparr>shape0 = length tokens, shape1 = 1, data = map (\<lambda>x. [astype_int32 x]) ids\<rparr>,
          \<lparr>shape0 = 0, shape1 = 2, data = []\<rparr>)"
  using generate_tables [OF assms, of 0]
  by (simp add: cbow_table_radius_0 skipgram_table_radius_0)

text \<open>
  C6 as stated fails at radius 0: the generator returns a one-column CBOW table and an
  empty Skip-gram table.
\<close>

theorem nonpositive_radius_counterexample:
  "generate \<lparr>itos = [''<PAD>'', ''<UNK>'', ''<SOS>'', ''<EOS>'', ''film'', ''good''],
             default_index = Some 1\<rparr> [''good'', ''film''] 0
     = Inr (\<lparr>shape0 = 2, shape1 = 1, data = [[5], [4]]\<rparr>, \<lparr>shape0 = 0, shape1 = 2, data = []\<rparr>)"
proof -
  have "lookup_indices \<lparr>itos = [''<PAD>'', ''<UNK>'', ''<SOS>'', ''<EOS>'', ''film'', ''good''],
             default_index = Some 1\<rparr> [''good'', ''film''] = Inr [5, 4]"
    by (simp add: getitem_def)
  then show ?thesis
    by (simp add: generate_radius_0 astype_int32_def)
qed

text \<open>
  C6 as the code has it.  There is no check of the radius.  A negative radius makes the
  allocation raise \<^verbatim>\<open>ValueError\<close> (the column count \<open>2 w + 1\<close> is negative); radius 0
  is accepted: the generator returns a CBOW table with one column, the identifier of
  each token in turn, and a Skip-gram table with zero rows.
\<close>

theorem nonpositive_radius:
  "(w < 0 \<longrightarrow> generate v tokens w = Inl ValueError) \<and>
   (lookup_indices v tokens = Inr ids \<longrightarrow>
      generate v tokens 0 =
        Inr (\<lparr>shape0 = length tokens, shape1 = 1, data = map (\<lambda>x. [astype_int32 x]) ids\<rparr>,
             \<lparr>shape0 = 0, shape1 = 2, data = []\<rparr>))"
  by (simp add: generate_negative_radius generate_radius_0)

theorem nonpositive_radius_witness:
  "generate \<lparr>itos = [''<PAD>'', ''<UNK>'', ''<SOS>'', ''<EOS>'', ''film'', ''good''],
             default_index = Some 1\<rparr> [''film'', ''good'', ''film''] (- 1) = Inl ValueError \<and>
   generate \<lparr>itos = [''<PAD>'', ''<UNK>'', ''<SOS>'', ''<EOS>'', ''film'', ''good''],
             default_index = Some 1\<rparr> [''film'', ''good'', ''film''] 0
     = Inr (\<lparr>shape0 = 3, shape1 = 1, data = [[4], [5], [4]]\<rparr>, \<lparr>shape0 = 0, shape1 = 2, data = []\<rparr>)"
proof -
  let ?v = "\<lparr>itos = [''<PAD>'', ''<UNK>'', ''<SOS>'', ''<EOS>'', ''film'', ''good''],
             default_index = Some 1\<rparr>"
  let ?tokens = "[''film'', ''good'', ''film'']"
  have ids: "lookup_indices ?v ?tokens = Inr [4, 5, 4]"
    by (simp add: getitem_def)
  have neg: "(- 1 :: int) < 0"
    by simp
  have a: "generate ?v ?tokens (- 1) = Inl ValueError"
    using nonpositive_radius [of "- 1" ?v ?tokens "[4, 5, 4]"] neg by blast
  have "generate ?v ?tokens 0 =
        Inr (\<lparr>shape0 = length ?tokens, shape1 = 1, data = map (\<lambda>x. [astype_int32 x]) [4, 5, 4]\<rparr>,
             \<lparr>shape0 = 0, shape1 = 2, data = []\<rparr>)"
    using nonpositive_radius [of "- 1" ?v ?tokens "[4, 5, 4]"] ids by blast
  then have b: "generate ?v ?tokens 0
     = Inr (\<lparr>shape0 = 3, shape1 = 1, data = [[4], [5], [4]]\<rparr>, \<lparr>shape0 = 0, shape1 = 2, data = []\<rparr>)"
    by (simp add: astype_int32_def)
  from a b show ?thesis by (rule conjI)
qed

lemma context_window_mem:
  "q \<in> set ([p - w..<p] @ [p + 1..<p + w + 1]) \<Longrightarrow> xs ! q \<in> set (context_window xs w p)"
  unfolding context_window_def set_map by (rule imageI)

lemma cbow_ids_mem_context:
  assumes "i + W - W \<le> k \<and> k < i + W \<or> i + W + 1 \<le> k \<and> k < i + W + W + 1"
  shows "ids ! k \<in> set (cbow_ids ids W i)"
proof -
  have "k \<in> set ([i + W - W..<i + W] @ [i + W + 1..<i + W + W + 1])"
    using assms by (simp only: set_append set_upt atLeastLessThan_iff Un_iff)
  then have "ids ! k \<in> set (context_window ids W (i + W))"
    by (rule context_window_mem)
  then show ?thesis
    by (simp add: cbow_ids_def)
qed

lemma cbow_table_covers:
  assumes "2 * W + 1 \<le> length ids" and "k < length ids"
  shows "\<exists>row\<in>set (cbow_table ids W). astype_int32 (ids ! k) \<in> set row"
proof -
  obtain n where n: "length ids = Suc n + 2 * W"
    using assms(1) by (metis Suc_eq_plus1 add.commute add_Suc_right le_Suc_ex)
  have row: "map astype_int32 (cbow_ids ids W i) \<in> set (cbow_table ids W)" if "i < Suc n" for i
  proof -
    have i: "i < length ids - 2 * W"
      using that n by simp
    then have "cbow_table ids W ! i \<in> set (cbow_table ids W)"
      by (intro nth_mem) (simp add: length_cbow_table)
    then show ?thesis
      using i by (simp add: nth_cbow_table)
  qed
  consider (left) "k < W" | (center) "W \<le> k" "k < W + Suc n" | (right) "W + Suc n \<le> k"
    by linarith
  then obtain i where i: "i < Suc n" and mem: "ids ! k \<in> set (cbow_ids ids W i)"
  proof cases
    case left
    then have "0 + W - W \<le> k \<and> k < 0 + W \<or> 0 + W + 1 \<le> k \<and> k < 0 + W + W + 1"
      by simp
    then have "ids ! k \<in> set (cbow_ids ids W 0)"
      by (rule cbow_ids_mem_context)
    then show ?thesis using that [of 0] by simp
  next
    case center
    then have "ids ! k \<in> set (cbow_ids ids W (k - W))"
      by (simp add: cbow_ids_def)
    moreover have "k - W < Suc n"
      using center by linarith
    ultimately show ?thesis using that by blast
  next
    case right
    then have "n + W - W \<le> k \<and> k < n + W \<or> n + W + 1 \<le> k \<and> k < n + W + W + 1"
      using assms(2) n by linarith
    then have "ids ! k \<in> set (cbow_ids ids W n)"
      by (rule cbow_ids_mem_context)
    then show ?thesis using that [of n] by simp
  qed
  have "astype_int32 (ids ! k) \<in> set (map astype_int32 (cbow_ids ids W i))"
    using mem by simp
  with row [OF i] show ?thesis
    by blast
qed

text \<open>
  C7 as stated fails: with default index \<open>- 1\<close> the unknown token \<^verbatim>\<open>zzz\<close> has the
  negative identifier \<open>- 1\<close>, and the generator returns tables that hold it.
\<close>

theorem invalid_identifier_counterexample:
  "lookup_indices \<lparr>itos = [''<PAD>'', ''<UNK>'', ''<SOS>'', ''<EOS>'', ''film'', ''good''],
                   default_index = Some (- 1)\<rparr> [''zzz'', ''good'', ''zzz'']
     = Inr [- 1, 5, - 1] \<and>
   generate \<lparr>itos = [''<PAD>'', ''<UNK>'', ''<SOS>'', ''<EOS>'', ''film'', ''good''],
             default_index = Some (- 1)\<rparr> [''zzz'', ''good'', ''zzz''] 1
     = Inr (\<lparr>shape0 = 1, shape1 = 3, data = [[- 1, - 1, 5]]\<rparr>,
            \<lparr>shape0 = 2, shape1 = 2, data = [[5, - 1], [5, - 1]]\<rparr>)"
proof -
  let ?v = "\<lparr>itos = [''<PAD>'', ''<UNK>'', ''<SOS>'', ''<EOS>'', ''film'', ''good''],
             default_index = Some (- 1)\<rparr>"
  have ids: "lookup_indices ?v [''zzz'', ''good'', ''zzz''] = Inr [- 1, 5, - 1]"
    by (simp add: getitem_def)
  have g: "generate ?v [''zzz'', ''good'', ''zzz''] 1
     = Inr (\<lparr>shape0 = 1, shape1 = 3, data = [[- 1, - 1, 5]]\<rparr>,
            \<lparr>shape0 = 2, shape1 = 2, data = [[5, - 1], [5, - 1]]\<rparr>)"
    using generate_tables [OF ids, of 1]
    by (simp add: cbow_table_def cbow_ids_def skipgram_table_def skipgram_ids_def
          context_window_def astype_int32_def upt_rec nth_Cons')
  from ids g show ?thesis by (rule conjI)
qed

text \<open>
  C7 as the code has it.  No identifier is checked.  When the tokens resolve to
  identifiers \<open>ids\<close> of which one, at position \<open>k\<close>, is negative or not below the size of
  the vocabulary, the generator still returns its tables (for a positive radius \<open>W\<close> and
  at least \<open>2 W + 1\<close> tokens), and that identifier is stored in a row of the CBOW table
  like any other.
\<close>

theorem invalid_identifier_stored:
  assumes "lookup_indices v tokens = Inr ids"
    and "0 < W" and "2 * W + 1 \<le> length tokens"
    and "k < length tokens" and "ids ! k < 0 \<or> int (len v) \<le> ids ! k"
  shows "\<exists>cbow skipgram. generate v tokens (int W) = Inr (cbow, skipgram) \<and>
     (\<exists>row\<in>set (data cbow). astype_int32 (ids ! k) \<in> set row)"
proof -
  have len: "length ids = length tokens"
    using assms(1) by (rule lookup_indices_length)
  have gen: "generate v tokens (int W) =
     Inr (\<lparr>shape0 = length tokens - 2 * W, shape1 = 2 * W + 1, data = cbow_table ids W\<rparr>,
          \<lparr>shape0 = (length tokens - 2 * W) * (2 * W), shape1 = 2, data = skipgram_table ids W\<rparr>)"
    using assms(1,3) by (intro generate_tables_nat) simp_all
  have "\<exists>row\<in>set (cbow_table ids W). astype_int32 (ids ! k) \<in> set row"
    using assms(3,4) len by (intro cbow_table_covers) simp_all
  then show ?thesis
    unfolding gen by simp
qed

theorem invalid_identifier_stored_witness:
  "lookup_indices \<lparr>itos = [''<PAD>'', ''<UNK>'', ''<SOS>'', ''<EOS>'', ''film'', ''good''],
                   default_index = Some (- 1)\<rparr> [''zzz'', ''good'', ''film'']
     = Inr [- 1, 5, 4] \<and>
   [- 1, 5, 4] ! 0 < (0 :: int) \<and>
   (\<exists>cbow skipgram.
      generate \<lparr>itos = [''<PAD>'', ''<UNK>'', ''<SOS>'', ''<EOS>'', ''film'', ''good''],
                default_index = Some (- 1)\<rparr> [''zzz'', ''good'', ''film''] (int 1)
        = Inr (cbow, skipgram) \<and>
      (\<exists>row\<in>set (data cbow). astype_int32 ([- 1, 5, 4] ! 0) \<in> set row))"
proof -
  let ?v = "\<lparr>itos = [''<PAD>'', ''<UNK>'', ''<SOS>'', ''<EOS>'', ''film'', ''good''],
             default_index = Some (- 1)\<rparr>"
  let ?tokens = "[''zzz'', ''good'', ''film'']"
  have ids: "lookup_indices ?v ?tokens = Inr [- 1, 5, 4]"
    by (simp add: getitem_def)
  have neg: "[- 1, 5, 4] ! 0 < (0 :: int)"
    by simp
  have "\<exists>cbow skipgram. generate ?v ?tokens (int 1) = Inr (cbow, skipgram) \<and>
      (\<exists>row\<in>set (data cbow). astype_int32 ([- 1, 5, 4] ! 0) \<in> set row)"
    using ids neg by (intro invalid_identifier_stored) simp_all
  with ids neg show ?thesis
    by (intro conjI)
qed

lemma sint_cbow_table:
  assumes "list_all (\<lambda>x. - (2 ^ 31) \<le> x \<and> x < 2 ^ 31) ids"
  shows "map (map sint) (cbow_table ids w) = map (cbow_ids ids w) [0..<length ids - 2 * w]"
proof -
  have "map sint (map astype_int32 (cbow_ids ids w i)) = cbow_ids ids w i"
    if "i < length ids - 2 * w" for i
  proof -
    have "set (cbow_ids ids w i) \<subseteq> set ids"
      using that by (intro cbow_ids_subset) simp
    then have "\<forall>x\<in>set (cbow_ids ids w i). sint (astype_int32 x) = x"
      using assms by (auto simp: list_all_iff intro!: sint_astype_int32_fits)
    then show ?thesis
      by (simp add: map_idI)
  qed
  then show ?thesis
    by (simp add: cbow_table_def)
qed

lemma sint_skipgram_table:
  assumes "list_all (\<lambda>x. - (2 ^ 31) \<le> x \<and> x < 2 ^ 31) ids"
  shows "map (map sint) (skipgram_table ids w)
     = concat (map (\<lambda>i. map (skipgram_ids ids w i) [0..<2 * w]) [0..<length ids - 2 * w])"
proof -
  have elt: "map (\<lambda>x. sint (astype_int32 x)) (skipgram_ids ids w i j) = skipgram_ids ids w i j"
    if "i < length ids - 2 * w" and "j < 2 * w" for i j
  proof -
    have "set (skipgram_ids ids w i j) \<subseteq> set ids"
      using that by (intro skipgram_ids_subset) simp_all
    then have "\<forall>x\<in>set (skipgram_ids ids w i j). sint (astype_int32 x) = x"
      using assms by (auto simp: list_all_iff intro!: sint_astype_int32_fits)
    then show ?thesis
      by (simp add: map_idI)
  qed
  have "map (map (map sint))
          (map (\<lambda>i. map (\<lambda>j. map astype_int32 (skipgram_ids ids w i j)) [0..<2 * w])
               [0..<length ids - 2 * w])
      = map (\<lambda>i. map (skipgram_ids ids w i) [0..<2 * w]) [0..<length ids - 2 * w]"
    unfolding map_map comp_def by (intro map_cong refl) (simp add: elt)
  then show ?thesis
    unfolding skipgram_table_def map_concat by (rule arg_cong)
qed

text \<open>
  C9.  The tables hold \<^verbatim>\<open>int32\<close> values: every entry is an identifier stored through
  \<open>astype_int32\<close>, which is two's complement on 32 bits (reading it back gives
  \<open>(x + 2^31) mod 2^32 - 2^31\<close>).  When every identifier fits in 32 bits, reading the
  tables back gives exactly the identifiers: CBOW row \<open>i\<close> is the context of position
  \<open>i + w\<close> followed by its center, the Skip-gram rows are the (center, context) pairs.
\<close>

theorem int32_storage:
  assumes "lookup_indices v tokens = Inr ids"
    and "generate v tokens w = Inr (cbow, skipgram)"
  shows "data cbow = cbow_table ids (nat w) \<and> data skipgram = skipgram_table ids (nat w) \<and>
     (\<forall>x. sint (astype_int32 x) = (x + 2 ^ 31) mod 2 ^ 32 - 2 ^ 31) \<and>
     (list_all (\<lambda>x. - (2 ^ 31) \<le> x \<and> x < 2 ^ 31) ids \<longrightarrow>
        map (map sint) (data cbow) = map (cbow_ids ids (nat w)) [0..<length ids - 2 * nat w] \<and>
        map (map sint) (data skipgram)
          = concat (map (\<lambda>i. map (skipgram_ids ids (nat w) i) [0..<2 * nat w])
                        [0..<length ids - 2 * nat w]))"
proof -
  have w: "0 \<le> w" "2 * w \<le> int (length tokens)"
    using generate_Inr_bounds [OF assms(2)] by simp_all
  have d: "data cbow = cbow_table ids (nat w)" "data skipgram = skipgram_table ids (nat w)"
    using generate_tables [OF assms(1) w] assms(2) by auto
  show ?thesis
    unfolding d by (simp add: sint_astype_int32 sint_cbow_table sint_skipgram_table)
qed

theorem int32_storage_witness:
  "\<exists>cbow skipgram.
     lookup_indices \<lparr>itos = [''<PAD>'', ''<UNK>'', ''<SOS>'', ''<EOS>'', ''film'', ''good''],
             default_index = Some 1\<rparr> [''good'', ''film'', ''good''] = Inr [5, 4, 5] \<and>
     generate \<lparr>itos = [''<PAD>'', ''<UNK>'', ''<SOS>'', ''<EOS>'', ''film'', ''good''],
             default_index = Some 1\<rparr> [''good'', ''film'', ''good''] 1 = Inr (cbow, skipgram) \<and>
     list_all (\<lambda>x. - (2 ^ 31) \<le> x \<and> x < 2 ^ 31) [5, 4, 5 :: int] \<and>
     map (map sint) (data cbow) = [[5, 5, 4]] \<and>
     map (map sint) (data skipgram) = [[4, 5], [4, 5]]"
proof -
  let ?v = "\<lparr>itos = [''<PAD>'', ''<UNK>'', ''<SOS>'', ''<EOS>'', ''film'', ''good''],
             default_index = Some 1\<rparr>"
  let ?tokens = "[''good'', ''film'', ''good'']"
  let ?cbow = "\<lparr>shape0 = 1, shape1 = 3, data = cbow_table [5, 4, 5] 1\<rparr>"
  let ?skipgram = "\<lparr>shape0 = 2, shape1 = 2, data = skipgram_table [5, 4, 5] 1\<rparr>"
  have ids: "lookup_indices ?v ?tokens = Inr [5, 4, 5]"
    by (simp add: getitem_def)
  have gen: "generate ?v ?tokens 1 = Inr (?cbow, ?skipgram)"
    using generate_tables [OF ids, of 1] by simp
  have fits: "list_all (\<lambda>x. - (2 ^ 31) \<le> x \<and> x < 2 ^ 31) [5, 4, 5 :: int]"
    by simp
  have "map (map sint) (data ?cbow) = map (cbow_ids [5, 4, 5] (nat 1)) [0..<length [5, 4, 5 :: int] - 2 * nat 1] \<and>
        map (map sint) (data ?skipgram)
          = concat (map (\<lambda>i. map (skipgram_ids [5, 4, 5] (nat 1) i) [0..<2 * nat 1])
                        [0..<length [5, 4, 5 :: int] - 2 * nat 1])"
    using int32_storage [OF ids gen] fits by blast
  then have "map (map sint) (data ?cbow) = [[5, 5, 4]] \<and>
      map (map sint) (data ?skipgram) = [[4, 5], [4, 5]]"
    by (simp add: cbow_ids_def skipgram_ids_def context_window_def upt_rec nth_Cons')
  then have c: "map (map sint) (data ?cbow) = [[5, 5, 4]]"
    and s: "map (map sint) (data ?skipgram) = [[4, 5], [4, 5]]"
    by simp_all
  show ?thesis
    by (rule exI [of _ ?cbow], rule exI [of _ ?skipgram], intro conjI ids gen fits c s)
qed

text \<open>
  C10.  With the vocabulary the notebook builds (at most \<^verbatim>\<open>TOP_TOKENS\<close> tokens after the
  four specials, default index set to the index of \<^verbatim>\<open><UNK>\<close>), every entry of both
  tables returned by the generator is an index between 0 and \<open>len v - 1\<close>; a token that
  is not in the vocabulary is given the index of \<^verbatim>\<open><UNK>\<close>, which is the default index.
\<close>

theorem table_entries_valid:
  assumes "vocabulary token_counter = Inr v"
    and "generate v tokens w = Inr (cbow, skipgram)"
  shows "list_all (list_all (\<lambda>x. 0 \<le> sint x \<and> sint x < int (len v))) (data cbow) \<and>
     list_all (list_all (\<lambda>x. 0 \<le> sint x \<and> sint x < int (len v))) (data skipgram) \<and>
     (\<forall>t. t \<notin> set (itos v) \<longrightarrow> getitem v t = getitem v UNK_TOKEN) \<and>
     (\<exists>u. getitem v UNK_TOKEN = Inr u \<and> default_index v = Some u)"
proof -
  let ?ids = "map (\<lambda>t. case stoi (itos v) t of Some i \<Rightarrow> int i | None \<Rightarrow> 1) tokens"
  note vp = vocabulary_props [OF assms(1)]
  have ids: "lookup_indices v tokens = Inr ?ids"
    using vp(1) by (rule lookup_indices_default)
  have w: "0 \<le> w" "2 * w \<le> int (length tokens)"
    using generate_Inr_bounds [OF assms(2)] by simp_all
  have d: "data cbow = cbow_table ?ids (nat w)" "data skipgram = skipgram_table ?ids (nat w)"
    using generate_tables [OF ids w] assms(2) by auto
  have range: "0 \<le> y \<and> y < int (len v)" if yin: "y \<in> set ?ids" for y
  proof -
    have "y \<in> (\<lambda>t. case stoi (itos v) t of Some i \<Rightarrow> int i | None \<Rightarrow> 1) ` set tokens"
      using yin by (simp only: set_map)
    then obtain t where y: "y = (case stoi (itos v) t of Some i \<Rightarrow> int i | None \<Rightarrow> 1)"
      by (rule imageE)
    show ?thesis
    proof (cases "stoi (itos v) t")
      case None
      then show ?thesis using y vp(2) by simp
    next
      case (Some i)
      then show ?thesis using y stoi_less [OF Some] by (simp add: len_def)
    qed
  qed
  have entry: "0 \<le> sint x \<and> sint x < int (len v)" if xin: "x \<in> astype_int32 ` set ?ids" for x
  proof -
    obtain y where y: "y \<in> set ?ids" and x: "x = astype_int32 y"
      using xin by blast
    have r: "0 \<le> y \<and> y < int (len v)"
      using y by (rule range)
    then have "sint (astype_int32 y) = y"
      using vp(3) by (intro sint_astype_int32_fits) simp_all
    then show ?thesis
      using r x by simp
  qed
  have c: "list_all (list_all (\<lambda>x. 0 \<le> sint x \<and> sint x < int (len v))) (data cbow)"
    unfolding d list_all_iff using cbow_table_entries entry by blast
  have s: "list_all (list_all (\<lambda>x. 0 \<le> sint x \<and> sint x < int (len v))) (data skipgram)"
    unfolding d list_all_iff using skipgram_table_entries entry by blast
  have unk: "getitem v UNK_TOKEN = Inr 1"
    using vp(5) by (simp add: getitem_def)
  have oov: "\<forall>t. t \<notin> set (itos v) \<longrightarrow> getitem v t = getitem v UNK_TOKEN"
    using vp(1) unk by (simp add: getitem_def stoi_None_iff [symmetric])
  from c s oov unk vp(1) show ?thesis
    by blast
qed


theorem table_entries_valid_witness:
  "vocabulary [(''film'', 3), (''good'', 2)]
     = Inr \<lparr>itos = [''<PAD>'', ''<UNK>'', ''<SOS>'', ''<EOS>'', ''film'', ''good''],
             default_index = Some 1\<rparr> \<and>
   generate \<lparr>itos = [''<PAD>'', ''<UNK>'', ''<SOS>'', ''<EOS>'', ''film'', ''good''],
             default_index = Some 1\<rparr> [''good'', ''zzz'', ''film''] 1
     = Inr (\<lparr>shape0 = 1, shape1 = 3, data = [[5, 4, 1]]\<rparr>,
            \<lparr>shape0 = 2, shape1 = 2, data = [[1, 5], [1, 4]]\<rparr>) \<and>
   list_all (list_all (\<lambda>x. 0 \<le> sint x \<and> sint x < 6)) [[5, 4, 1 :: int32]] \<and>
   list_all (list_all (\<lambda>x. 0 \<le> sint x \<and> sint x < 6)) [[1, 5], [1, 4 :: int32]] \<and>
   getitem \<lparr>itos = [''<PAD>'', ''<UNK>'', ''<SOS>'', ''<EOS>'', ''film'', ''good''],
             default_index = Some 1\<rparr> ''zzz''
     = getitem \<lparr>itos = [''<PAD>'', ''<UNK>'', ''<SOS>'', ''<EOS>'', ''film'', ''good''],
             default_index = Some 1\<rparr> UNK_TOKEN"
proof -
  let ?v = "\<lparr>itos = [''<PAD>'', ''<UNK>'', ''<SOS>'', ''<EOS>'', ''film'', ''good''],
             default_index = Some 1\<rparr>"
  let ?cbow = "\<lparr>shape0 = 1, shape1 = 3, data = [[5, 4, 1]]\<rparr>"
  let ?skipgram = "\<lparr>shape0 = 2, shape1 = 2, data = [[1, 5], [1, 4]]\<rparr>"
  have v: "vocabulary [(''film'', 3), (''good'', 2)] = Inr ?v"
    by (simp add: vocabulary_def vocab_def token_ordered_dict_def TOP_TOKENS_def SPECIALS_def
          PAD_TOKEN_def UNK_TOKEN_def SOS_TOKEN_def EOS_TOKEN_def getitem_def
          set_default_index_def)
  have ids: "lookup_indices ?v [''good'', ''zzz'', ''film''] = Inr [5, 1, 4]"
    by (simp add: getitem_def)
  have g: "generate ?v [''good'', ''zzz'', ''film''] 1 = Inr (?cbow, ?skipgram)"
    using generate_tables [OF ids, of 1]
    by (simp add: cbow_table_def cbow_ids_def skipgram_table_def skipgram_ids_def
          context_window_def astype_int32_def upt_rec nth_Cons')
  have len: "int (len ?v) = 6"
    by (simp add: len_def)
  have zzz: "''zzz'' \<notin> set (itos ?v)"
    by simp
  have "list_all (list_all (\<lambda>x. 0 \<le> sint x \<and> sint x < int (len ?v))) (data ?cbow) \<and>
     list_all (list_all (\<lambda>x. 0 \<le> sint x \<and> sint x < int (len ?v))) (data ?skipgram) \<and>
     (\<forall>t. t \<notin> set (itos ?v) \<longrightarrow> getitem ?v t = getitem ?v UNK_TOKEN) \<and>
     (\<exists>u. getitem ?v UNK_TOKEN = Inr u \<and> default_index ?v = Some u)"
    using v g by (rule table_entries_valid)
  then have c: "list_all (list_all (\<lambda>x. 0 \<le> sint x \<and> sint x < 6)) [[5, 4, 1 :: int32]]"
    and s: "list_all (list_all (\<lambda>x. 0 \<le> sint x \<and> sint x < 6)) [[1, 5], [1, 4 :: int32]]"
    and u: "getitem ?v ''zzz'' = getitem ?v UNK_TOKEN"
    unfolding len using zzz by simp_all
  show ?thesis
    by (intro conjI v g c s u)
qed

subsection \<open>The cell on the notebook state\<close>

lemma cell_skipgram_loop_frame:
  "nb_tokens (snd (cell_skipgram_loop v center ci w items nb)) = nb_tokens nb \<and>
   nb_vocabulary (snd (cell_skipgram_loop v center ci w items nb)) = nb_vocabulary nb \<and>
   nb_window_size (snd (cell_skipgram_loop v center ci w items nb)) = nb_window_size nb \<and>
   nb_cbow (snd (cell_skipgram_loop v center ci w items nb)) = nb_cbow nb \<and>
   nb_pbar (snd (cell_skipgram_loop v center ci w items nb)) = nb_pbar nb \<and>
   nb_stderr (snd (cell_skipgram_loop v center ci w items nb)) = nb_stderr nb"
proof (induction items arbitrary: nb)
  case Nil
  show ?case by simp
next
  case (Cons item items)
  obtain idx c where item: "item = (idx, c)"
    by (cases item)
  show ?case
    unfolding item
    by (simp add: Let_def Cons.IH split: sum.splits option.splits)
qed

lemma cell_skipgram_loop_sim:
  assumes "nb_skipgram nb = Some sg"
  shows "fst (cell_skipgram_loop v center ci w items nb)
       = (case skipgram_loop v center ci w items sg of Inl e \<Rightarrow> Some e | Inr sg' \<Rightarrow> None) \<and>
     (\<forall>sg'. skipgram_loop v center ci w items sg = Inr sg' \<longrightarrow>
        nb_skipgram (snd (cell_skipgram_loop v center ci w items nb)) = Some sg')"
  using assms
proof (induction items arbitrary: nb sg)
  case Nil
  then show ?case by simp
next
  case (Cons item items)
  obtain idx c where item: "item = (idx, c)"
    by (cases item)
  show ?case
    unfolding item using Cons.prems
    by (simp add: Let_def Cons.IH split: sum.splits option.splits)
qed


lemma window_loop_Cons:
  "window_loop v tokens w (item # rest) acc =
     (case window_loop v tokens w [item] acc of
        Inl e \<Rightarrow> Inl e
      | Inr acc' \<Rightarrow> window_loop v tokens w rest acc')"
  by (cases item; cases acc) (simp add: Let_def split: sum.splits)

lemma cell_window_body_sim:
  assumes cb: "nb_cbow nb = Some cb" and sg: "nb_skipgram nb = Some sg"
    and pb: "nb_pbar nb = Some pb"
    and run: "cell_window_body v tokens w ci pos nb = (r, nb')"
  shows "r = (case window_loop v tokens w [(ci, pos)] (cb, sg) of Inl e \<Rightarrow> Some e | Inr x \<Rightarrow> None) \<and>
     (\<forall>cb' sg'. window_loop v tokens w [(ci, pos)] (cb, sg) = Inr (cb', sg') \<longrightarrow>
        nb_cbow nb' = Some cb' \<and> nb_skipgram nb' = Some sg' \<and>
        nb_pbar nb' = Some (pb\<lparr>pb_n := pb_n pb + 1\<rparr>)) \<and>
     nb_tokens nb' = nb_tokens nb \<and> nb_vocabulary nb' = nb_vocabulary nb \<and>
     nb_window_size nb' = nb_window_size nb \<and> nb_stderr nb' = nb_stderr nb"
proof (cases "py_getitem tokens pos")
  case (Inl e)
  then show ?thesis
    using run by (auto simp: cell_window_body_def Let_def)
next
  case g: (Inr center)
  let ?ctx = "py_slice tokens (pos - w) pos @ py_slice tokens (pos + 1) (pos + w + 1)"
  show ?thesis
  proof (cases "lookup_indices v ?ctx")
    case (Inl e)
    then show ?thesis
      using run g by (auto simp: cell_window_body_def Let_def)
  next
    case a: (Inr a)
    show ?thesis
    proof (cases "lookup_indices v [center]")
      case (Inl e)
      then show ?thesis
        using run g a by (auto simp: cell_window_body_def Let_def)
    next
      case b: (Inr b)
      show ?thesis
      proof (cases "setitem cb (pos - w) (a @ b)")
        case (Inl e)
        then show ?thesis
          using run g a b cb by (auto simp: cell_window_body_def Let_def)
      next
        case s: (Inr cb1)
        let ?nb = "nb\<lparr>nb_center_idx := Some ci, nb_pos := Some pos, nb_center := Some center,
                     nb_context := Some ?ctx, nb_cbow_sample := Some (a @ b),
                     nb_cbow := Some cb1\<rparr>"
        obtain r4 nb4 where inner:
          "cell_skipgram_loop v center ci w (py_enumerate ?ctx) ?nb = (r4, nb4)"
          by (meson surj_pair)
        have body: "cell_window_body v tokens w ci pos nb =
            (case r4 of
               Some e \<Rightarrow> (Some e, nb4)
             | None \<Rightarrow> (case nb_pbar nb4 of
                          None \<Rightarrow> (Some NameError, nb4)
                        | Some pbar \<Rightarrow> (None, nb4\<lparr>nb_pbar := Some (pbar\<lparr>pb_n := pb_n pbar + 1\<rparr>)\<rparr>)))"
          using g a b s cb inner by (simp add: cell_window_body_def Let_def split: option.splits)
        have pure: "window_loop v tokens w [(ci, pos)] (cb, sg) =
            (case skipgram_loop v center ci w (py_enumerate ?ctx) sg of
               Inl e \<Rightarrow> Inl e | Inr sg1 \<Rightarrow> Inr (cb1, sg1))"
          using g a b s by (simp add: Let_def split: sum.splits)
        have frame: "nb_tokens nb4 = nb_tokens nb" "nb_vocabulary nb4 = nb_vocabulary nb"
          "nb_window_size nb4 = nb_window_size nb" "nb_cbow nb4 = Some cb1"
          "nb_pbar nb4 = Some pb" "nb_stderr nb4 = nb_stderr nb"
          using cell_skipgram_loop_frame [of v center ci w "py_enumerate ?ctx" ?nb] pb
          unfolding inner by simp_all
        have "nb_skipgram ?nb = Some sg"
          using sg by simp
        note sim = cell_skipgram_loop_sim [OF this, of v center ci w "py_enumerate ?ctx",
            unfolded inner fst_conv snd_conv]
        show ?thesis
        proof (cases "skipgram_loop v center ci w (py_enumerate ?ctx) sg")
          case (Inl e)
          then have "r4 = Some e"
            using sim by simp
          then show ?thesis
            using run frame Inl unfolding body pure by auto
        next
          case (Inr sg1)
          then have "r4 = None" and "nb_skipgram nb4 = Some sg1"
            using sim by simp_all
          then show ?thesis
            using run frame Inr unfolding body pure by auto
        qed
      qed
    qed
  qed
qed


lemma cell_window_loop_sim:
  assumes "nb_cbow nb = Some cb" and "nb_skipgram nb = Some sg" and "nb_pbar nb = Some pb"
    and "cell_window_loop v tokens w items nb = (r, nb')"
  shows "r = (case window_loop v tokens w items (cb, sg) of Inl e \<Rightarrow> Some e | Inr x \<Rightarrow> None) \<and>
     (\<forall>cb' sg'. window_loop v tokens w items (cb, sg) = Inr (cb', sg') \<longrightarrow>
        nb_cbow nb' = Some cb' \<and> nb_skipgram nb' = Some sg' \<and>
        nb_pbar nb' = Some (pb\<lparr>pb_n := pb_n pb + length items\<rparr>)) \<and>
     nb_tokens nb' = nb_tokens nb \<and> nb_vocabulary nb' = nb_vocabulary nb \<and>
     nb_window_size nb' = nb_window_size nb \<and> nb_stderr nb' = nb_stderr nb"
  using assms
proof (induction items arbitrary: nb cb sg pb)
  case Nil
  then show ?case by auto
next
  case (Cons item items)
  obtain ci pos where item: "item = (ci, pos)"
    by (cases item)
  obtain r1 nb1 where body: "cell_window_body v tokens w ci pos nb = (r1, nb1)"
    by (meson surj_pair)
  note b = cell_window_body_sim [OF Cons.prems(1-3) body]
  show ?case
  proof (cases "window_loop v tokens w [(ci, pos)] (cb, sg)")
    case (Inl e)
    then have "r1 = Some e"
      using b by simp
    then have "r = Some e" and "nb' = nb1"
      using Cons.prems(4) body by (simp_all add: item)
    moreover have "window_loop v tokens w (item # items) (cb, sg) = Inl e"
      unfolding item by (subst window_loop_Cons) (simp only: Inl sum.case)
    ultimately show ?thesis
      using b by simp
  next
    case (Inr acc)
    obtain cb1 sg1 where acc: "acc = (cb1, sg1)"
      by (cases acc)
    have r1: "r1 = None" and st: "nb_cbow nb1 = Some cb1" "nb_skipgram nb1 = Some sg1"
      "nb_pbar nb1 = Some (pb\<lparr>pb_n := pb_n pb + 1\<rparr>)"
      using b Inr acc by simp_all
    have rest: "cell_window_loop v tokens w items nb1 = (r, nb')"
      using Cons.prems(4) body r1 by (simp add: item)
    have pure: "window_loop v tokens w (item # items) (cb, sg)
        = window_loop v tokens w items (cb1, sg1)"
      unfolding item by (subst window_loop_Cons) (simp only: Inr acc sum.case)
    note IH = Cons.IH [OF st rest]
    show ?thesis
      unfolding pure using IH b by simp
  qed
qed

lemma length_enumerate_range:
  "length (py_enumerate (py_range a b)) = nat (b - a)"
  by (simp add: enumerate_range)

lemma generate_cell_sim:
  assumes run: "generate_cell w nb = (r, nb')"
  shows "r = (case generate (nb_vocabulary nb) (nb_tokens nb) w of Inl e \<Rightarrow> Some e | Inr x \<Rightarrow> None) \<and>
     (\<forall>cb sg. generate (nb_vocabulary nb) (nb_tokens nb) w = Inr (cb, sg) \<longrightarrow>
        nb_cbow nb' = Some cb \<and> nb_skipgram nb' = Some sg \<and>
        nb_stderr nb' = nb_stderr nb
          @ [Opened (nat (int (length (nb_tokens nb)) - 2 * w)),
             Closed (nat (int (length (nb_tokens nb)) - 2 * w))
                    (nat (int (length (nb_tokens nb)) - 2 * w))]) \<and>
     nb_tokens nb' = nb_tokens nb \<and> nb_vocabulary nb' = nb_vocabulary nb \<and>
     nb_window_size nb' = Some w"
proof (cases "np_zeros (int (length (nb_tokens nb)) - 2 * w) (2 * w + 1)")
  case (Inl e)
  then show ?thesis
    using run by (auto simp: generate_cell_def generate_def Let_def)
next
  case z1: (Inr cb0)
  show ?thesis
  proof (cases "np_zeros ((int (length (nb_tokens nb)) - 2 * w) * (2 * w)) 2")
    case (Inl e)
    then show ?thesis
      using run z1 by (auto simp: generate_cell_def generate_def Let_def)
  next
    case z2: (Inr sg0)
    let ?n = "nat (int (length (nb_tokens nb)) - 2 * w)"
    let ?items = "py_enumerate (py_range w (int (length (nb_tokens nb)) - w))"
    let ?nb = "nb\<lparr>nb_window_size := Some w, nb_cbow := Some cb0, nb_skipgram := Some sg0,
                 nb_pbar := Some \<lparr>pb_n = 0, pb_total = shape0 cb0\<rparr>,
                 nb_stderr := nb_stderr nb @ [Opened (shape0 cb0)]\<rparr>"
    have shape: "shape0 cb0 = ?n"
      using z1 by (auto simp: np_zeros_def split: if_splits)
    have items: "length ?items = ?n"
      by (simp add: length_enumerate_range)
    obtain r5 nb5 where loop:
      "cell_window_loop (nb_vocabulary nb) (nb_tokens nb) w ?items ?nb = (r5, nb5)"
      by (meson surj_pair)
    have cell: "generate_cell w nb = (r5, close_pbar nb5)"
      using z1 z2 loop by (simp add: generate_cell_def Let_def)
    have pure: "generate (nb_vocabulary nb) (nb_tokens nb) w
        = window_loop (nb_vocabulary nb) (nb_tokens nb) w ?items (cb0, sg0)"
      using z1 z2 by (simp add: generate_def)
    have st: "nb_cbow ?nb = Some cb0" "nb_skipgram ?nb = Some sg0"
      "nb_pbar ?nb = Some \<lparr>pb_n = 0, pb_total = shape0 cb0\<rparr>"
      by simp_all
    note sim = cell_window_loop_sim [OF st loop]
    have r: "r = r5" and nb': "nb' = close_pbar nb5"
      using run cell by simp_all
    have frame: "nb_tokens nb' = nb_tokens nb" "nb_vocabulary nb' = nb_vocabulary nb"
      "nb_window_size nb' = Some w"
      using sim by (simp_all add: nb' close_pbar_def split: option.splits)
    have success: "nb_cbow nb' = Some cb \<and> nb_skipgram nb' = Some sg \<and>
        nb_stderr nb' = nb_stderr nb @ [Opened ?n, Closed ?n ?n]"
      if "generate (nb_vocabulary nb) (nb_tokens nb) w = Inr (cb, sg)" for cb sg
    proof -
      have "nb_cbow nb5 = Some cb" "nb_skipgram nb5 = Some sg"
        "nb_pbar nb5 = Some \<lparr>pb_n = ?n, pb_total = ?n\<rparr>"
        "nb_stderr nb5 = nb_stderr nb @ [Opened ?n]"
        using sim that unfolding pure by (simp_all add: items shape)
      then show ?thesis
        by (simp add: nb' close_pbar_def)
    qed
    show ?thesis
      using sim frame success unfolding r pure by blast
  qed
qed

text \<open>
  C8 as stated fails.  A run of the cell on a fresh notebook leaves more than the two
  tables: \<^verbatim>\<open>window_size\<close>, the loop variables and the progress bar are assigned, and
  the bar has been written.  A second run with radius 2, which fails in \<^verbatim>\<open>np.zeros\<close>,
  has already changed \<^verbatim>\<open>window_size\<close> and leaves the tables of the first run in place.
\<close>

theorem generate_cell_effects_counterexample:
  "generate_cell 1
     \<lparr>nb_tokens = [''good'', ''film'', ''good''],
      nb_vocabulary = \<lparr>itos = [''<PAD>'', ''<UNK>'', ''<SOS>'', ''<EOS>'', ''film'', ''good''],
                       default_index = Some 1\<rparr>,
      nb_window_size = None, nb_cbow = None, nb_skipgram = None, nb_pbar = None,
      nb_center_idx = None, nb_pos = None, nb_center = None, nb_context = None,
      nb_cbow_sample = None, nb_idx = None, nb_c = None, nb_skipgram_sample = None,
      nb_stderr = []\<rparr>
   = (None,
     \<lparr>nb_tokens = [''good'', ''film'', ''good''],
      nb_vocabulary = \<lparr>itos = [''<PAD>'', ''<UNK>'', ''<SOS>'', ''<EOS>'', ''film'', ''good''],
                       default_index = Some 1\<rparr>,
      nb_window_size = Some 1,
      nb_cbow = Some \<lparr>shape0 = 1, shape1 = 3, data = [[5, 5, 4]]\<rparr>,
      nb_skipgram = Some \<lparr>shape0 = 2, shape1 = 2, data = [[4, 5], [4, 5]]\<rparr>,
      nb_pbar = Some \<lparr>pb_n = 1, pb_total = 1\<rparr>,
      nb_center_idx = Some 0, nb_pos = Some 1, nb_center = Some ''film'',
      nb_context = Some [''good'', ''good''], nb_cbow_sample = Some [5, 5, 4],
      nb_idx = Some 1, nb_c = Some ''good'', nb_skipgram_sample = Some [4, 5],
      nb_stderr = [Opened 1, Closed 1 1]\<rparr>) \<and>
   generate_cell 2
     \<lparr>nb_tokens = [''good'', ''film'', ''good''],
      nb_vocabulary = \<lparr>itos = [''<PAD>'', ''<UNK>'', ''<SOS>'', ''<EOS>'', ''film'', ''good''],
                       default_index = Some 1\<rparr>,
      nb_window_size = Some 1,
      nb_cbow = Some \<lparr>shape0 = 1, shape1 = 3, data = [[5, 5, 4]]\<rparr>,
      nb_skipgram = Some \<lparr>shape0 = 2, shape1 = 2, data = [[4, 5], [4, 5]]\<rparr>,
      nb_pbar = Some \<lparr>pb_n = 1, pb_total = 1\<rparr>,
      nb_center_idx = Some 0, nb_pos = Some 1, nb_center = Some ''film'',
      nb_context = Some [''good'', ''good''], nb_cbow_sample = Some [5, 5, 4],
      nb_idx = Some 1, nb_c = Some ''good'', nb_skipgram_sample = Some [4, 5],
      nb_stderr = [Opened 1, Closed 1 1]\<rparr>
   = (Some ValueError,
     \<lparr>nb_tokens = [''good'', ''film'', ''good''],
      nb_vocabulary = \<lparr>itos = [''<PAD>'', ''<UNK>'', ''<SOS>'', ''<EOS>'', ''film'', ''good''],
                       default_index = Some 1\<rparr>,
      nb_window_size = Some 2,
      nb_cbow = Some \<lparr>shape0 = 1, shape1 = 3, data = [[5, 5, 4]]\<rparr>,
      nb_skipgram = Some \<lparr>shape0 = 2, shape1 = 2, data = [[4, 5], [4, 5]]\<rparr>,
      nb_pbar = Some \<lparr>pb_n = 1, pb_total = 1\<rparr>,
      nb_center_idx = Some 0, nb_pos = Some 1, nb_center = Some ''film'',
      nb_context = Some [''good'', ''good''], nb_cbow_sample = Some [5, 5, 4],
      nb_idx = Some 1, nb_c = Some ''good'', nb_skipgram_sample = Some [4, 5],
      nb_stderr = [Opened 1, Closed 1 1]\<rparr>)"
proof -
  have first: "generate_cell 1
     \<lparr>nb_tokens = [''good'', ''film'', ''good''],
      nb_vocabulary = \<lparr>itos = [''<PAD>'', ''<UNK>'', ''<SOS>'', ''<EOS>'', ''film'', ''good''],
                       default_index = Some 1\<rparr>,
      nb_window_size = None, nb_cbow = None, nb_skipgram = None, nb_pbar = None,
      nb_center_idx = None, nb_pos = None, nb_center = None, nb_context = None,
      nb_cbow_sample = None, nb_idx = None, nb_c = None, nb_skipgram_sample = None,
      nb_stderr = []\<rparr>
   = (None,
     \<lparr>nb_tokens = [''good'', ''film'', ''good''],
      nb_vocabulary = \<lparr>itos = [''<PAD>'', ''<UNK>'', ''<SOS>'', ''<EOS>'', ''film'', ''good''],
                       default_index = Some 1\<rparr>,
      nb_window_size = Some 1,
      nb_cbow = Some \<lparr>shape0 = 1, shape1 = 3, data = [[5, 5, 4]]\<rparr>,
      nb_skipgram = Some \<lparr>shape0 = 2, shape1 = 2, data = [[4, 5], [4, 5]]\<rparr>,
      nb_pbar = Some \<lparr>pb_n = 1, pb_total = 1\<rparr>,
      nb_center_idx = Some 0, nb_pos = Some 1, nb_center = Some ''film'',
      nb_context = Some [''good'', ''good''], nb_cbow_sample = Some [5, 5, 4],
      nb_idx = Some 1, nb_c = Some ''good'', nb_skipgram_sample = Some [4, 5],
      nb_stderr = [Opened 1, Closed 1 1]\<rparr>)"
    by code_simp
  have second: "generate_cell 2
     \<lparr>nb_tokens = [''good'', ''film'', ''good''],
      nb_vocabulary = \<lparr>itos = [''<PAD>'', ''<UNK>'', ''<SOS>'', ''<EOS>'', ''film'', ''good''],
                       default_index = Some 1\<rparr>,
      nb_window_size = Some 1,
      nb_cbow = Some \<lparr>shape0 = 1, shape1 = 3, data = [[5, 5, 4]]\<rparr>,
      nb_skipgram = Some \<lparr>shape0 = 2, shape1 = 2, data = [[4, 5], [4, 5]]\<rparr>,
      nb_pbar = Some \<lparr>pb_n = 1, pb_total = 1\<rparr>,
      nb_center_idx = Some 0, nb_pos = Some 1, nb_center = Some ''film'',
      nb_context = Some [''good'', ''good''], nb_cbow_sample = Some [5, 5, 4],
      nb_idx = Some 1, nb_c = Some ''good'', nb_skipgram_sample = Some [4, 5],
      nb_stderr = [Opened 1, Closed 1 1]\<rparr>
   = (Some ValueError,
     \<lparr>nb_tokens = [''good'', ''film'', ''good''],
      nb_vocabulary = \<lparr>itos = [''<PAD>'', ''<UNK>'', ''<SOS>'', ''<EOS>'', ''film'', ''good''],
                       default_index = Some 1\<rparr>,
      nb_window_size = Some 2,
      nb_cbow = Some \<lparr>shape0 = 1, shape1 = 3, data = [[5, 5, 4]]\<rparr>,
      nb_skipgram = Some \<lparr>shape0 = 2, shape1 = 2, data = [[4, 5], [4, 5]]\<rparr>,
      nb_pbar = Some \<lparr>pb_n = 1, pb_total = 1\<rparr>,
      nb_center_idx = Some 0, nb_pos = Some 1, nb_center = Some ''film'',
      nb_context = Some [''good'', ''good''], nb_cbow_sample = Some [5, 5, 4],
      nb_idx = Some 1, nb_c = Some ''good'', nb_skipgram_sample = Some [4, 5],
      nb_stderr = [Opened 1, Closed 1 1]\<rparr>)"
    by (simp add: generate_cell_def np_zeros_def)
  from first second show ?thesis
    by (rule conjI)
qed

text \<open>
  C8 as the code has it.  The outcome of the cell depends only on \<^verbatim>\<open>tokens\<close>,
  \<^verbatim>\<open>vocabulary\<close> and the radius: run from two notebook states that hold the same
  tokens and vocabulary, it raises the same error in both or succeeds in both with the
  same two tables, those of \<open>generate\<close>, whatever earlier runs left behind; it leaves
  \<^verbatim>\<open>tokens\<close> and \<^verbatim>\<open>vocabulary\<close> unchanged, and running it again on its own result gives
  the same tables.  Besides the tables it assigns \<^verbatim>\<open>window_size\<close> and, when it succeeds,
  has written the progress bar twice (opened, closed after \<open>N - 2 w\<close> updates).
\<close>

theorem generate_cell_tables:
  assumes "nb_tokens nb2 = nb_tokens nb1" and "nb_vocabulary nb2 = nb_vocabulary nb1"
    and "generate_cell w nb1 = (r1, nb1')" and "generate_cell w nb2 = (r2, nb2')"
  shows "r2 = r1 \<and>
     nb_tokens nb1' = nb_tokens nb1 \<and> nb_vocabulary nb1' = nb_vocabulary nb1 \<and>
     nb_window_size nb1' = Some w \<and>
     (r1 = None \<longrightarrow>
        (\<exists>cbow skipgram.
           generate (nb_vocabulary nb1) (nb_tokens nb1) w = Inr (cbow, skipgram) \<and>
           nb_cbow nb1' = Some cbow \<and> nb_skipgram nb1' = Some skipgram \<and>
           nb_cbow nb2' = Some cbow \<and> nb_skipgram nb2' = Some skipgram \<and>
           fst (generate_cell w nb1') = None \<and>
           nb_cbow (snd (generate_cell w nb1')) = Some cbow \<and>
           nb_skipgram (snd (generate_cell w nb1')) = Some skipgram) \<and>
        nb_stderr nb1' = nb_stderr nb1
          @ [Opened (nat (int (length (nb_tokens nb1)) - 2 * w)),
             Closed (nat (int (length (nb_tokens nb1)) - 2 * w))
                    (nat (int (length (nb_tokens nb1)) - 2 * w))])"
proof -
  note s1 = generate_cell_sim [OF assms(3)]
  note s2 = generate_cell_sim [OF assms(4), unfolded assms(1,2)]
  obtain r3 nb3 where again: "generate_cell w nb1' = (r3, nb3)"
    by (meson surj_pair)
  have in1: "nb_tokens nb1' = nb_tokens nb1" "nb_vocabulary nb1' = nb_vocabulary nb1"
    using s1 by simp_all
  note s3 = generate_cell_sim [OF again, unfolded in1]
  have same: "r2 = r1"
    using s1 s2 by simp
  have success: "\<exists>cbow skipgram.
           generate (nb_vocabulary nb1) (nb_tokens nb1) w = Inr (cbow, skipgram) \<and>
           nb_cbow nb1' = Some cbow \<and> nb_skipgram nb1' = Some skipgram \<and>
           nb_cbow nb2' = Some cbow \<and> nb_skipgram nb2' = Some skipgram \<and>
           fst (generate_cell w nb1') = None \<and>
           nb_cbow (snd (generate_cell w nb1')) = Some cbow \<and>
           nb_skipgram (snd (generate_cell w nb1')) = Some skipgram" if ok: "r1 = None"
  proof -
    obtain cbow skipgram
      where g: "generate (nb_vocabulary nb1) (nb_tokens nb1) w = Inr (cbow, skipgram)"
      using s1 ok by (cases "generate (nb_vocabulary nb1) (nb_tokens nb1) w") auto
    have "nb_cbow nb1' = Some cbow" "nb_skipgram nb1' = Some skipgram"
      using s1 g by simp_all
    moreover have "nb_cbow nb2' = Some cbow" "nb_skipgram nb2' = Some skipgram"
      using s2 g by simp_all
    moreover have "r3 = None" "nb_cbow nb3 = Some cbow" "nb_skipgram nb3 = Some skipgram"
      using s3 g by simp_all
    ultimately show ?thesis
      using g by (simp add: again)
  qed
  have out: "nb_stderr nb1' = nb_stderr nb1
          @ [Opened (nat (int (length (nb_tokens nb1)) - 2 * w)),
             Closed (nat (int (length (nb_tokens nb1)) - 2 * w))
                    (nat (int (length (nb_tokens nb1)) - 2 * w))]" if ok: "r1 = None"
  proof -
    obtain cbow skipgram
      where g: "generate (nb_vocabulary nb1) (nb_tokens nb1) w = Inr (cbow, skipgram)"
      using s1 ok by (cases "generate (nb_vocabulary nb1) (nb_tokens nb1) w") auto
    then show ?thesis
      using s1 by simp
  qed
  have ws: "nb_window_size nb1' = Some w"
    using s1 by simp
  from same in1 ws success out show ?thesis
    by blast
qed

theorem generate_cell_tables_witness:
  "generate_cell 1
     \<lparr>nb_tokens = [''good'', ''film'', ''good''],
      nb_vocabulary = \<lparr>itos = [''<PAD>'', ''<UNK>'', ''<SOS>'', ''<EOS>'', ''film'', ''good''],
                       default_index = Some 1\<rparr>,
      nb_window_size = None, nb_cbow = None, nb_skipgram = None, nb_pbar = None,
      nb_center_idx = None, nb_pos = None, nb_center = None, nb_context = None,
      nb_cbow_sample = None, nb_idx = None, nb_c = None, nb_skipgram_sample = None,
      nb_stderr = []\<rparr>
   = (None,
     \<lparr>nb_tokens = [''good'', ''film'', ''good''],
      nb_vocabulary = \<lparr>itos = [''<PAD>'', ''<UNK>'', ''<SOS>'', ''<EOS>'', ''film'', ''good''],
                       default_index = Some 1\<rparr>,
      nb_window_size = Some 1,
      nb_cbow = Some \<lparr>shape0 = 1, shape1 = 3, data = [[5, 5, 4]]\<rparr>,
      nb_skipgram = Some \<lparr>shape0 = 2, shape1 = 2, data = [[4, 5], [4, 5]]\<rparr>,
      nb_pbar = Some \<lparr>pb_n = 1, pb_total = 1\<rparr>,
      nb_center_idx = Some 0, nb_pos = Some 1, nb_center = Some ''film'',
      nb_context = Some [''good'', ''good''], nb_cbow_sample = Some [5, 5, 4],
      nb_idx = Some 1, nb_c = Some ''good'', nb_skipgram_sample = Some [4, 5],
      nb_stderr = [Opened 1, Closed 1 1]\<rparr>) \<and>
   generate_cell 1
     \<lparr>nb_tokens = [''good'', ''film'', ''good''],
      nb_vocabulary = \<lparr>itos = [''<PAD>'', ''<UNK>'', ''<SOS>'', ''<EOS>'', ''film'', ''good''],
                       default_index = Some 1\<rparr>,
      nb_window_size = Some 5,
      nb_cbow = Some \<lparr>shape0 = 1, shape1 = 1, data = [[7]]\<rparr>,
      nb_skipgram = Some \<lparr>shape0 = 0, shape1 = 2, data = []\<rparr>,
      nb_pbar = Some \<lparr>pb_n = 1, pb_total = 1\<rparr>,
      nb_center_idx = Some 0, nb_pos = Some 0, nb_center = Some ''plot'',
      nb_context = Some [], nb_cbow_sample = Some [7], nb_idx = None, nb_c = None,
      nb_skipgram_sample = None, nb_stderr = [Opened 1, Closed 1 1]\<rparr>
   = (None,
     \<lparr>nb_tokens = [''good'', ''film'', ''good''],
      nb_vocabulary = \<lparr>itos = [''<PAD>'', ''<UNK>'', ''<SOS>'', ''<EOS>'', ''film'', ''good''],
                       default_index = Some 1\<rparr>,
      nb_window_size = Some 1,
      nb_cbow = Some \<lparr>shape0 = 1, shape1 = 3, data = [[5, 5, 4]]\<rparr>,
      nb_skipgram = Some \<lparr>shape0 = 2, shape1 = 2, data = [[4, 5], [4, 5]]\<rparr>,
      nb_pbar = Some \<lparr>pb_n = 1, pb_total = 1\<rparr>,
      nb_center_idx = Some 0, nb_pos = Some 1, nb_center = Some ''film'',
      nb_context = Some [''good'', ''good''], nb_cbow_sample = Some [5, 5, 4],
      nb_idx = Some 1, nb_c = Some ''good'', nb_skipgram_sample = Some [4, 5],
      nb_stderr = [Opened 1, Closed 1 1, Opened 1, Closed 1 1]\<rparr>) \<and>
   nb_cbow (\<lparr>nb_tokens = [''good'', ''film'', ''good''],
      nb_vocabulary = \<lparr>itos = [''<PAD>'', ''<UNK>'', ''<SOS>'', ''<EOS>'', ''film'', ''good''],
                       default_index = Some 1\<rparr>,
      nb_window_size = Some 1,
      nb_cbow = Some \<lparr>shape0 = 1, shape1 = 3, data = [[5, 5, 4]]\<rparr>,
      nb_skipgram = Some \<lparr>shape0 = 2, shape1 = 2, data = [[4, 5], [4, 5]]\<rparr>,
      nb_pbar = Some \<lparr>pb_n = 1, pb_total = 1\<rparr>,
      nb_center_idx = Some 0, nb_pos = Some 1, nb_center = Some ''film'',
      nb_context = Some [''good'', ''good''], nb_cbow_sample = Some [5, 5, 4],
      nb_idx = Some 1, nb_c = Some ''good'', nb_skipgram_sample = Some [4, 5],
      nb_stderr = [Opened 1, Closed 1 1, Opened 1, Closed 1 1]\<rparr>)
     = Some \<lparr>shape0 = 1, shape1 = 3, data = [[5, 5, 4]]\<rparr> \<and>
   nb_skipgram (\<lparr>nb_tokens = [''good'', ''film'', ''good''],
      nb_vocabulary = \<lparr>itos = [''<PAD>'', ''<UNK>'', ''<SOS>'', ''<EOS>'', ''film'', ''good''],
                       default_index = Some 1\<rparr>,
      nb_window_size = Some 1,
      nb_cbow = Some \<lparr>shape0 = 1, shape1 = 3, data = [[5, 5, 4]]\<rparr>,
      nb_skipgram = Some \<lparr>shape0 = 2, shape1 = 2, data = [[4, 5], [4, 5]]\<rparr>,
      nb_pbar = Some \<lparr>pb_n = 1, pb_total = 1\<rparr>,
      nb_center_idx = Some 0, nb_pos = Some 1, nb_center = Some ''film'',
      nb_context = Some [''good'', ''good''], nb_cbow_sample = Some [5, 5, 4],
      nb_idx = Some 1, nb_c = Some ''good'', nb_skipgram_sample = Some [4, 5],
      nb_stderr = [Opened 1, Closed 1 1, Opened 1, Closed 1 1]\<rparr>)
     = Some \<lparr>shape0 = 2, shape1 = 2, data = [[4, 5], [4, 5]]\<rparr> \<and>
   fst (generate_cell 1
     (\<lparr>nb_tokens = [''good'', ''film'', ''good''],
      nb_vocabulary = \<lparr>itos = [''<PAD>'', ''<UNK>'', ''<SOS>'', ''<EOS>'', ''film'', ''good''],
                       default_index = Some 1\<rparr>,
      nb_window_size = Some 1,
      nb_cbow = Some \<lparr>shape0 = 1, shape1 = 3, data = [[5, 5, 4]]\<rparr>,
      nb_skipgram = Some \<lparr>shape0 = 2, shape1 = 2, data = [[4, 5], [4, 5]]\<rparr>,
      nb_pbar = Some \<lparr>pb_n = 1, pb_total = 1\<rparr>,
      nb_center_idx = Some 0, nb_pos = Some 1, nb_center = Some ''film'',
      nb_context = Some [''good'', ''good''], nb_cbow_sample = Some [5, 5, 4],
      nb_idx = Some 1, nb_c = Some ''good'', nb_skipgram_sample = Some [4, 5],
      nb_stderr = [Opened 1, Closed 1 1]\<rparr>)) = None"
proof -
  let ?nb1 = "\<lparr>nb_tokens = [''good'', ''film'', ''good''],
      nb_vocabulary = \<lparr>itos = [''<PAD>'', ''<UNK>'', ''<SOS>'', ''<EOS>'', ''film'', ''good''],
                       default_index = Some 1\<rparr>,
      nb_window_size = None, nb_cbow = None, nb_skipgram = None, nb_pbar = None,
      nb_center_idx = None, nb_pos = None, nb_center = None, nb_context = None,
      nb_cbow_sample = None, nb_idx = None, nb_c = None, nb_skipgram_sample = None,
      nb_stderr = []\<rparr>"
  let ?s1 = "\<lparr>nb_tokens = [''good'', ''film'', ''good''],
      nb_vocabulary = \<lparr>itos = [''<PAD>'', ''<UNK>'', ''<SOS>'', ''<EOS>'', ''film'', ''good''],
                       default_index = Some 1\<rparr>,
      nb_window_size = Some 1,
      nb_cbow = Some \<lparr>shape0 = 1, shape1 = 3, data = [[5, 5, 4]]\<rparr>,
      nb_skipgram = Some \<lparr>shape0 = 2, shape1 = 2, data = [[4, 5], [4, 5]]\<rparr>,
      nb_pbar = Some \<lparr>pb_n = 1, pb_total = 1\<rparr>,
      nb_center_idx = Some 0, nb_pos = Some 1, nb_center = Some ''film'',
      nb_context = Some [''good'', ''good''], nb_cbow_sample = Some [5, 5, 4],
      nb_idx = Some 1, nb_c = Some ''good'', nb_skipgram_sample = Some [4, 5],
      nb_stderr = [Opened 1, Closed 1 1]\<rparr>"
  let ?nb2 = "\<lparr>nb_tokens = [''good'', ''film'', ''good''],
      nb_vocabulary = \<lparr>itos = [''<PAD>'', ''<UNK>'', ''<SOS>'', ''<EOS>'', ''film'', ''good''],
                       default_index = Some 1\<rparr>,
      nb_window_size = Some 5,
      nb_cbow = Some \<lparr>shape0 = 1, shape1 = 1, data = [[7]]\<rparr>,
      nb_skipgram = Some \<lparr>shape0 = 0, shape1 = 2, data = []\<rparr>,
      nb_pbar = Some \<lparr>pb_n = 1, pb_total = 1\<rparr>,
      nb_center_idx = Some 0, nb_pos = Some 0, nb_center = Some ''plot'',
      nb_context = Some [], nb_cbow_sample = Some [7], nb_idx = None, nb_c = None,
      nb_skipgram_sample = None, nb_stderr = [Opened 1, Closed 1 1]\<rparr>"
  let ?s2 = "\<lparr>nb_tokens = [''good'', ''film'', ''good''],
      nb_vocabulary = \<lparr>itos = [''<PAD>'', ''<UNK>'', ''<SOS>'', ''<EOS>'', ''film'', ''good''],
                       default_index = Some 1\<rparr>,
      nb_window_size = Some 1,
      nb_cbow = Some \<lparr>shape0 = 1, shape1 = 3, data = [[5, 5, 4]]\<rparr>,
      nb_skipgram = Some \<lparr>shape0 = 2, shape1 = 2, data = [[4, 5], [4, 5]]\<rparr>,
      nb_pbar = Some \<lparr>pb_n = 1, pb_total = 1\<rparr>,
      nb_center_idx = Some 0, nb_pos = Some 1, nb_center = Some ''film'',
      nb_context = Some [''good'', ''good''], nb_cbow_sample = Some [5, 5, 4],
      nb_idx = Some 1, nb_c = Some ''good'', nb_skipgram_sample = Some [4, 5],
      nb_stderr = [Opened 1, Closed 1 1, Opened 1, Closed 1 1]\<rparr>"
  have run1: "generate_cell 1 ?nb1 = (None, ?s1)"
    by code_simp
  have run2: "generate_cell 1 ?nb2 = (None, ?s2)"
    by code_simp
  have t: "nb_tokens ?nb2 = nb_tokens ?nb1" and v: "nb_vocabulary ?nb2 = nb_vocabulary ?nb1"
    by simp_all
  note inst = generate_cell_tables [OF t v run1 run2]
  then obtain cbow skipgram
    where c1: "nb_cbow ?s1 = Some cbow" and g1: "nb_skipgram ?s1 = Some skipgram"
      and c2: "nb_cbow ?s2 = Some cbow" and g2: "nb_skipgram ?s2 = Some skipgram"
      and again: "fst (generate_cell 1 ?s1) = None"
    by blast
  have "cbow = \<lparr>shape0 = 1, shape1 = 3, data = [[5, 5, 4]]\<rparr>"
    and "skipgram = \<lparr>shape0 = 2, shape1 = 2, data = [[4, 5], [4, 5]]\<rparr>"
    using c1 g1 by simp_all
  then have tables: "nb_cbow ?s2 = Some \<lparr>shape0 = 1, shape1 = 3, data = [[5, 5, 4]]\<rparr>"
    "nb_skipgram ?s2 = Some \<lparr>shape0 = 2, shape1 = 2, data = [[4, 5], [4, 5]]\<rparr>"
    using c2 g2 by simp_all
  show ?thesis
    by (intro conjI run1 run2 tables again)
qed

end
